theory Spec2Isabelle
  imports Main "HOL-Library.AList"
begin

section \<open>Values, documents and identifiers\<close>

text \<open>
  The repository holds three versions of one server: on mongoose
  (\<^verbatim>\<open>src/unnamed/part_000\<close>, lines 1 to 188), on the native MongoDB driver with its own
  tokens (the same file, lines 190 to 479) and on the native driver with an identity
  provider's tokens (\<^verbatim>\<open>src/index.js\<close>). The second one is modelled in full, the third
  where it differs from the second, the first in its route for deleting a post.

  The server keeps its data in MongoDB collections. An ObjectId is a 12-byte number; the
  driver hands out a fresh one at every \<^verbatim>\<open>insertOne\<close> (modelled by a counter in the
  state) and \<^verbatim>\<open>new ObjectId(s)\<close> reads one from 24 hexadecimal digits and throws on
  anything else. Two ObjectIds have the same \<^verbatim>\<open>toString()\<close> exactly when they are the
  same id, so where the source compares the string forms of two ObjectIds the model
  compares the ids.

  A stored value is a BSON value. A request body is the result of \<^verbatim>\<open>JSON.parse\<close>: the
  same values without \<open>VOid\<close> and \<open>VDate\<close>. Numbers are modelled by integers.
\<close>

type_synonym oid = nat

datatype val =
    VNull
  | VBool bool
  | VNum int
  | VStr string
  | VOid oid
  | VDate nat
  | VArr "val list"
  | VObj "(string \<times> val) list"

type_synonym doc = "(string \<times> val) list"

text \<open>\<^verbatim>\<open>obj.k\<close>: \<open>None\<close> is JavaScript's \<^verbatim>\<open>undefined\<close>.\<close>

definition field :: "doc \<Rightarrow> string \<Rightarrow> val option" where
  "field d k = map_of d k"

text \<open>A value written into a document: the driver serialises \<^verbatim>\<open>undefined\<close> as null.\<close>

definition stored :: "val option \<Rightarrow> val" where
  "stored v = (case v of None \<Rightarrow> VNull | Some x \<Rightarrow> x)"

text \<open>JavaScript truthiness, as in \<^verbatim>\<open>if (user.banned)\<close>.\<close>

fun truthy :: "val option \<Rightarrow> bool" where
  "truthy None = False"
| "truthy (Some VNull) = False"
| "truthy (Some (VBool b)) = b"
| "truthy (Some (VNum n)) = (n \<noteq> 0)"
| "truthy (Some (VStr s)) = (s \<noteq> [])"
| "truthy (Some _) = True"

definition hex_digit :: "char \<Rightarrow> nat option" where
  "hex_digit c =
     (let n = (of_char c :: nat) in
      if 48 \<le> n \<and> n \<le> 57 then Some (n - 48)
      else if 97 \<le> n \<and> n \<le> 102 then Some (n - 87)
      else if 65 \<le> n \<and> n \<le> 70 then Some (n - 55)
      else None)"

fun hex_value :: "nat \<Rightarrow> string \<Rightarrow> nat option" where
  "hex_value acc [] = Some acc"
| "hex_value acc (c # cs) =
     (case hex_digit c of None \<Rightarrow> None | Some d \<Rightarrow> hex_value (16 * acc + d) cs)"

text \<open>\<^verbatim>\<open>new ObjectId(s)\<close> for a string \<open>s\<close>; \<open>None\<close> is the thrown BSON error.\<close>

definition ObjectId :: "string \<Rightarrow> oid option" where
  "ObjectId s = (if length s = 24 then hex_value 0 s else None)"

text \<open>\<^verbatim>\<open>id.toString()\<close>: the 24 lower-case hexadecimal digits of an ObjectId.\<close>

definition hex_char :: "nat \<Rightarrow> char" where
  "hex_char d = ''0123456789abcdef'' ! d"

fun to_hex :: "nat \<Rightarrow> nat \<Rightarrow> string" where
  "to_hex k n = (if k = 0 then [] else to_hex (k - 1) (n div 16) @ [hex_char (n mod 16)])"

declare to_hex.simps [simp del]

definition toString :: "oid \<Rightarrow> string" where
  "toString i = to_hex 24 i"

text \<open>\<^verbatim>\<open>s.split(" ")\<close>.\<close>

fun split_sp :: "string \<Rightarrow> string list" where
  "split_sp [] = [[]]"
| "split_sp (c # cs) =
     (if c = CHR '' '' then [] # split_sp cs
      else (case split_sp cs of [] \<Rightarrow> [[c]] | w # ws \<Rightarrow> (c # w) # ws))"

text \<open>
  \<^verbatim>\<open>req.headers.authorization?.split(" ")[1]\<close>, with \<open>None\<close> for every falsy result
  (no header, no second part, an empty second part).
\<close>

definition bearer :: "string option \<Rightarrow> string option" where
  "bearer hdr =
     (case hdr of
        None \<Rightarrow> None
      | Some h \<Rightarrow>
          (case split_sp h of
             _ # t # _ \<Rightarrow> (if t = [] then None else Some t)
           | _ \<Rightarrow> None))"

section \<open>Collections and state\<close>

record post =
  p_id :: oid
  p_content :: val
  p_image :: val
  p_author :: oid
  p_likes :: "oid list"
  p_createdAt :: nat

record comment =
  c_id :: oid
  c_text :: val
  c_postId :: oid
  c_author :: oid
  c_createdAt :: nat

datatype ntype = NFollow | NLike | NComment

record notification =
  n_id :: oid
  n_type :: ntype
  n_sender :: oid
  n_receiver :: oid
  n_postId :: "oid option"
  n_read :: bool
  n_createdAt :: nat

text \<open>
  A user document is its \<^verbatim>\<open>_id\<close> and its other fields: every stored document has an
  \<^verbatim>\<open>_id\<close>, and no update can change it. The user documents are schemaless (the profile
  update writes whatever the request names), so their fields are an association list;
  posts, comments and notifications are only ever written with the shapes below.
\<close>

type_synonym user = "oid \<times> doc"

record state =
  Users :: "user list"
  Posts :: "post list"
  Comments :: "comment list"
  Notifications :: "notification list"
  next_id :: nat
  clock :: nat

definition init :: state where
  "init = \<lparr>Users = [], Posts = [], Comments = [], Notifications = [], next_id = 0, clock = 0\<rparr>"

section \<open>The outside world\<close>

text \<open>
  The capabilities the server calls and does not implement: the token signer and
  verifier (\<open>jwt_verify\<close> yields \<^verbatim>\<open>decoded.id\<close>, or \<open>None\<close> when it throws), the
  identity provider's verifier (\<open>verifyIdToken\<close> yields the decoded claims, or \<open>None\<close>
  when it throws), the password hash, the image host (\<open>None\<close> when the upload throws)
  and, of the database, its query operators (a filter value that is an object of
  operators) and whether the server is of version 5.0 or later (\<open>server5\<close>): from that
  version on an empty \<^verbatim>\<open>$set\<close> is accepted and a name that starts with \<^verbatim>\<open>$\<close> can be
  written below the top level of a document, earlier servers refuse both.
\<close>

record env =
  jwt_verify :: "string \<Rightarrow> string option"
  jwt_sign :: "oid \<Rightarrow> string"
  verifyIdToken :: "string \<Rightarrow> doc option"
  bcrypt_hash :: "string \<Rightarrow> string"
  bcrypt_compare :: "string \<Rightarrow> string \<Rightarrow> bool"
  uploadToImgBB :: "string \<Rightarrow> val option"
  query_ops :: "(string \<times> val) list \<Rightarrow> val option \<Rightarrow> bool"
  server5 :: bool

datatype exn =
    TypeError
  | BSONError
  | BcryptError
  | UploadError
  | CastError
  | ImmutableField
  | NotArray
  | FailedToParse
  | EmptyFieldName
  | DollarPrefixedFieldName
  | PathNotViable
  | CannotBackfillArray
  | ConflictingUpdateOperators
  | BadValue

datatype body =
    Msg string
  | LoginBody string user
  | MeBody user "post list"
  | PostBody post
  | PostAuthorBody post doc
  | PostsBody "post list"
  | CommentBody comment
  | NotifsBody "notification list"
  | ValBody val

text \<open>
  What a handler ends with: a response (status and JSON body), or an exception thrown
  out of the async handler, in which case the handler sends no response of its own.
\<close>

datatype outcome = Reply nat body | Threw exn

section \<open>Database operations\<close>

text \<open>\<^verbatim>\<open>Users.findOne({ _id: i })\<close>.\<close>

definition find_user :: "oid \<Rightarrow> user list \<Rightarrow> user option" where
  "find_user i us = find (\<lambda>u. fst u = i) us"

text \<open>
  The filter \<^verbatim>\<open>{ k: q }\<close> on one document: equality, membership when the stored
  field is an array, null (and \<^verbatim>\<open>undefined\<close>, sent as null) also matching a missing
  field, and an object handed to the query operators.
\<close>

definition field_matches :: "env \<Rightarrow> val option \<Rightarrow> val option \<Rightarrow> bool" where
  "field_matches e q s =
     (case stored q of
        VObj ops \<Rightarrow> query_ops e ops s
      | VNull \<Rightarrow> s = None \<or> s = Some VNull \<or> (case s of Some (VArr xs) \<Rightarrow> VNull \<in> set xs | _ \<Rightarrow> False)
      | v \<Rightarrow> s = Some v \<or> (case s of Some (VArr xs) \<Rightarrow> v \<in> set xs | _ \<Rightarrow> False))"

text \<open>\<^verbatim>\<open>Users.updateOne({ _id: i }, op)\<close>: the first match is updated, no match is no error.\<close>

fun update_user :: "oid \<Rightarrow> (user \<Rightarrow> exn + user) \<Rightarrow> user list \<Rightarrow> exn + user list" where
  "update_user i f [] = Inr []"
| "update_user i f (u # us) =
     (if fst u = i then (case f u of Inl x \<Rightarrow> Inl x | Inr u' \<Rightarrow> Inr (u' # us))
      else (case update_user i f us of Inl x \<Rightarrow> Inl x | Inr us' \<Rightarrow> Inr (u # us')))"

subsection \<open>The update operator \<^verbatim>\<open>$set\<close>\<close>

text \<open>
  A key of the \<^verbatim>\<open>$set\<close> document is a path: its components are the parts between the
  dots. The first names a field of the document, the others lead into what that field
  holds: a name into an embedded document, an index or \<^verbatim>\<open>$[]\<close> into an array. The limits
  that the database puts on a stored document (its size, the depth of its nesting) are
  not part of the model.
\<close>

fun split_dot :: "string \<Rightarrow> string list" where
  "split_dot [] = [[]]"
| "split_dot (c # cs) =
     (if c = CHR ''.'' then [] # split_dot cs
      else (case split_dot cs of [] \<Rightarrow> [[c]] | w # ws \<Rightarrow> (c # w) # ws))"

text \<open>A component that is an array index: decimal digits, without a leading zero.\<close>

fun dec_value :: "nat \<Rightarrow> string \<Rightarrow> nat option" where
  "dec_value acc [] = Some acc"
| "dec_value acc (c # cs) =
     (let n = (of_char c :: nat) in
      if 48 \<le> n \<and> n \<le> 57 then dec_value (10 * acc + (n - 48)) cs else None)"

definition array_index :: "string \<Rightarrow> nat option" where
  "array_index c =
     (if c = [] \<or> (1 < length c \<and> hd c = CHR ''0'') then None else dec_value 0 c)"

text \<open>A component that starts with \<^verbatim>\<open>$\<close>.\<close>

definition dollar :: "string \<Rightarrow> bool" where
  "dollar c = (c \<noteq> [] \<and> hd c = CHR ''$'')"

text \<open>
  The positional operator \<^verbatim>\<open>$\<close> and a filtered one \<^verbatim>\<open>$[name]\<close>: they need an array
  in the query, or array filters, and the server's updates are sent with neither.
\<close>

definition needs_filter :: "string \<Rightarrow> bool" where
  "needs_filter c = (c = ''$'' \<or> (take 2 c = ''$['' \<and> c \<noteq> ''$[]'' \<and> last c = CHR '']''))"

text \<open>
  A value without a field name that starts with \<^verbatim>\<open>$\<close>, at any depth: what a server
  before version 5.0 accepts as the new value of a field.
\<close>

fun dollar_free :: "val \<Rightarrow> bool" where
  "dollar_free (VObj fs) = (\<forall>kv \<in> set fs. \<not> dollar (fst kv) \<and> dollar_free (snd kv))"
| "dollar_free (VArr xs) = (\<forall>x \<in> set xs. dollar_free x)"
| "dollar_free _ = True"

text \<open>
  A value that the driver can serialise: no field name in it, at any depth, contains the
  NUL character (in BSON a name ends at the first NUL, and the driver throws).
\<close>

fun serialisable :: "val \<Rightarrow> bool" where
  "serialisable (VObj fs) = (\<forall>kv \<in> set fs. CHR 0x00 \<notin> set (fst kv) \<and> serialisable (snd kv))"
| "serialisable (VArr xs) = (\<forall>x \<in> set xs. serialisable x)"
| "serialisable _ = True"

text \<open>All results, or the first error.\<close>

fun all_right :: "(exn + 'a) list \<Rightarrow> exn + 'a list" where
  "all_right [] = Inr []"
| "all_right (r # rs) =
     (case r of
        Inl x \<Rightarrow> Inl x
      | Inr a \<Rightarrow> (case all_right rs of Inl x \<Rightarrow> Inl x | Inr as \<Rightarrow> Inr (a # as)))"

text \<open>
  The value a field holds after the path \<open>cs\<close> below it is set to \<open>v\<close>, where \<open>cur\<close> is
  what it holds now (\<open>None\<close>: nothing). A missing path is created as embedded documents;
  an array is entered by an index (an index past the end pads the array with nulls) or
  by \<^verbatim>\<open>$[]\<close>, which stands for every element; anything else cannot be entered.
\<close>

fun set_in :: "bool \<Rightarrow> val option \<Rightarrow> string list \<Rightarrow> val \<Rightarrow> exn + val" where
  "set_in s5 cur [] v = (if s5 \<or> dollar_free v then Inr v else Inl DollarPrefixedFieldName)"
| "set_in s5 cur (c # cs) v =
     (case cur of
        None \<Rightarrow>
          (if c = ''$[]'' then Inl BadValue
           else if dollar c \<and> \<not> s5 then Inl DollarPrefixedFieldName
           else (case set_in s5 None cs v of
                   Inl x \<Rightarrow> Inl x
                 | Inr w \<Rightarrow> Inr (VObj [(c, w)])))
      | Some (VObj fs) \<Rightarrow>
          (if c = ''$[]'' then Inl BadValue
           else if dollar c \<and> \<not> s5 then Inl DollarPrefixedFieldName
           else (case set_in s5 (map_of fs c) cs v of
                   Inl x \<Rightarrow> Inl x
                 | Inr w \<Rightarrow> Inr (VObj (AList.update c w fs))))
      | Some (VArr xs) \<Rightarrow>
          (if c = ''$[]''
           then (case all_right (map (\<lambda>x. set_in s5 (Some x) cs v) xs) of
                   Inl x \<Rightarrow> Inl x
                 | Inr ys \<Rightarrow> Inr (VArr ys))
           else (case array_index c of
                   None \<Rightarrow> Inl PathNotViable
                 | Some i \<Rightarrow>
                     (if i < length xs
                      then (case set_in s5 (Some (xs ! i)) cs v of
                              Inl x \<Rightarrow> Inl x
                            | Inr w \<Rightarrow> Inr (VArr (xs[i := w])))
                      else if 1500000 < i - length xs then Inl CannotBackfillArray
                      else (case set_in s5 None cs v of
                              Inl x \<Rightarrow> Inl x
                            | Inr w \<Rightarrow> Inr (VArr (xs @ replicate (i - length xs) VNull @ [w]))))))
      | Some _ \<Rightarrow> (if c = ''$[]'' then Inl BadValue else Inl PathNotViable))"

text \<open>
  One path set in a user document. \<^verbatim>\<open>_id\<close> cannot change, and no field of a document
  itself can have a name that starts with \<^verbatim>\<open>$\<close>. Only the field that the first component
  names is written.
\<close>

definition set_path :: "bool \<Rightarrow> oid \<Rightarrow> string list \<Rightarrow> val \<Rightarrow> doc \<Rightarrow> exn + doc" where
  "set_path s5 i cs v d =
     (case cs of
        [] \<Rightarrow> Inl EmptyFieldName
      | c # rest \<Rightarrow>
          (if c = ''_id'' then (if rest = [] \<and> v = VOid i then Inr d else Inl ImmutableField)
           else if c = ''$[]'' then Inl BadValue
           else if dollar c then Inl DollarPrefixedFieldName
           else (case set_in s5 (map_of d c) rest v of
                   Inl x \<Rightarrow> Inl x
                 | Inr w \<Rightarrow> Inr (AList.update c w d))))"

fun set_paths :: "bool \<Rightarrow> oid \<Rightarrow> (string list \<times> val) list \<Rightarrow> doc \<Rightarrow> exn + doc" where
  "set_paths s5 i [] d = Inr d"
| "set_paths s5 i (pv # pvs) d =
     (case set_path s5 i (fst pv) (snd pv) d of
        Inl x \<Rightarrow> Inl x
      | Inr d' \<Rightarrow> set_paths s5 i pvs d')"

text \<open>
  The paths of one update are set in the order of their names, not in the order of the
  update document: component by component, by the bytes of the names; from version 5.0
  on, names that are numbers come first, in the order of their values. So new fields
  are added in this order.
\<close>

fun str_less :: "string \<Rightarrow> string \<Rightarrow> bool" where
  "str_less [] [] = False"
| "str_less [] (y # ys) = True"
| "str_less (x # xs) [] = False"
| "str_less (x # xs) (y # ys) = ((of_char x :: nat) < of_char y \<or> (x = y \<and> str_less xs ys))"

definition name_less :: "bool \<Rightarrow> string \<Rightarrow> string \<Rightarrow> bool" where
  "name_less s5 a b =
     (if s5 then
        (case array_index a of
           Some i \<Rightarrow> (case array_index b of Some j \<Rightarrow> i < j | None \<Rightarrow> True)
         | None \<Rightarrow> (case array_index b of Some j \<Rightarrow> False | None \<Rightarrow> str_less a b))
      else str_less a b)"

fun path_less :: "bool \<Rightarrow> string list \<Rightarrow> string list \<Rightarrow> bool" where
  "path_less s5 [] [] = False"
| "path_less s5 [] (q # qs) = True"
| "path_less s5 (p # ps) [] = False"
| "path_less s5 (p # ps) (q # qs) = (name_less s5 p q \<or> (p = q \<and> path_less s5 ps qs))"

fun insert_path ::
  "bool \<Rightarrow> string list \<times> val \<Rightarrow> (string list \<times> val) list \<Rightarrow> (string list \<times> val) list" where
  "insert_path s5 pv [] = [pv]"
| "insert_path s5 pv (x # xs) =
     (if path_less s5 (fst x) (fst pv) then x # insert_path s5 pv xs else pv # x # xs)"

definition sort_paths :: "bool \<Rightarrow> (string list \<times> val) list \<Rightarrow> (string list \<times> val) list" where
  "sort_paths s5 pvs = foldr (insert_path s5) pvs []"

text \<open>Two paths of one update conflict when one is the beginning of the other.\<close>

fun conflicts :: "string list list \<Rightarrow> bool" where
  "conflicts [] = False"
| "conflicts (p # ps) =
     (list_ex (\<lambda>q. take (length p) q = p \<or> take (length q) p = q) ps \<or> conflicts ps)"

text \<open>
  \<^verbatim>\<open>{ $set: F }\<close> on a user document. The driver throws when it cannot serialise \<open>F\<close>.
  The database refuses the update as a whole when \<open>F\<close> is
  empty (before version 5.0), when a path has an empty component, a positional or
  filtered component, when two paths conflict, or when setting one of the paths fails;
  else every path is set, in the order of the paths.
\<close>

definition op_set :: "env \<Rightarrow> doc \<Rightarrow> user \<Rightarrow> exn + user" where
  "op_set e F u =
     (if \<not> serialisable (VObj F) then Inl BSONError
      else if F = [] then (if server5 e then Inr u else Inl FailedToParse)
      else if list_ex (\<lambda>kv. [] \<in> set (split_dot (fst kv))) F then Inl EmptyFieldName
      else if list_ex (\<lambda>kv. list_ex needs_filter (split_dot (fst kv))) F then Inl BadValue
      else if conflicts (map (\<lambda>kv. split_dot (fst kv)) F) then Inl ConflictingUpdateOperators
      else (case set_paths (server5 e) (fst u)
                   (sort_paths (server5 e) (map (\<lambda>kv. (split_dot (fst kv), snd kv)) F)) (snd u) of
              Inl x \<Rightarrow> Inl x
            | Inr d \<Rightarrow> Inr (fst u, d)))"

subsection \<open>The update operators \<^verbatim>\<open>$addToSet\<close> and \<^verbatim>\<open>$pull\<close>\<close>

text \<open>\<^verbatim>\<open>{ $addToSet: { k: v } }\<close>, for a key \<open>k\<close> without dots.\<close>

definition op_addToSet :: "string \<Rightarrow> val \<Rightarrow> user \<Rightarrow> exn + user" where
  "op_addToSet k v u =
     (case field (snd u) k of
        None \<Rightarrow> Inr (fst u, AList.update k (VArr [v]) (snd u))
      | Some (VArr xs) \<Rightarrow>
          Inr (fst u, AList.update k (VArr (if v \<in> set xs then xs else xs @ [v])) (snd u))
      | Some _ \<Rightarrow> Inl NotArray)"

text \<open>\<^verbatim>\<open>{ $pull: { k: v } }\<close>, for a key \<open>k\<close> without dots.\<close>

definition op_pull :: "string \<Rightarrow> val \<Rightarrow> user \<Rightarrow> exn + user" where
  "op_pull k v u =
     (case field (snd u) k of
        None \<Rightarrow> Inr u
      | Some (VArr xs) \<Rightarrow> Inr (fst u, AList.update k (VArr (filter (\<lambda>x. x \<noteq> v) xs)) (snd u))
      | Some _ \<Rightarrow> Inl NotArray)"

section \<open>Middleware\<close>

text \<open>
  \<^verbatim>\<open>auth\<close> of the server on the native driver: \<open>Inl\<close> is the response it sends itself,
  \<open>Inr\<close> the user it attaches as \<^verbatim>\<open>req.user\<close> before calling \<^verbatim>\<open>next()\<close>. Everything
  thrown inside its \<^verbatim>\<open>try\<close> (the verifier, \<^verbatim>\<open>new ObjectId\<close>) ends in 401.
\<close>

definition auth :: "env \<Rightarrow> string option \<Rightarrow> state \<Rightarrow> outcome + user" where
  "auth e hdr st =
     (case bearer hdr of
        None \<Rightarrow> Inl (Reply 401 (Msg ''No token''))
      | Some token \<Rightarrow>
          (case jwt_verify e token of
             None \<Rightarrow> Inl (Reply 401 (Msg ''Invalid token''))
           | Some decoded_id \<Rightarrow>
               (case ObjectId decoded_id of
                  None \<Rightarrow> Inl (Reply 401 (Msg ''Invalid token''))
                | Some i \<Rightarrow>
                    (case find_user i (Users st) of
                       None \<Rightarrow> Inl (Reply 403 (Msg ''Access denied''))
                     | Some u \<Rightarrow>
                         (if truthy (field (snd u) ''banned'')
                          then Inl (Reply 403 (Msg ''Access denied''))
                          else Inr u)))))"

definition adminOnly :: "user \<Rightarrow> bool" where
  "adminOnly u = (field (snd u) ''role'' = Some (VStr ''admin''))"

text \<open>A route behind \<^verbatim>\<open>auth\<close>: the handler runs only when \<^verbatim>\<open>auth\<close> calls \<^verbatim>\<open>next()\<close>.\<close>

definition with_auth ::
  "env \<Rightarrow> string option \<Rightarrow> (user \<Rightarrow> state \<Rightarrow> state \<times> outcome) \<Rightarrow> state \<Rightarrow> state \<times> outcome" where
  "with_auth e hdr h st = (case auth e hdr st of Inl r \<Rightarrow> (st, r) | Inr u \<Rightarrow> h u st)"

definition with_admin ::
  "(user \<Rightarrow> state \<Rightarrow> state \<times> outcome) \<Rightarrow> user \<Rightarrow> state \<Rightarrow> state \<times> outcome" where
  "with_admin h u st = (if adminOnly u then h u st else (st, Reply 403 (Msg ''Admin only'')))"

section \<open>The notification helper\<close>

text \<open>
  \<^verbatim>\<open>createNotification({ type, sender, receiver, postId = null })\<close>: nothing when the
  string forms of sender and receiver agree, else one inserted notification.
\<close>

definition createNotification :: "ntype \<Rightarrow> oid \<Rightarrow> oid \<Rightarrow> oid option \<Rightarrow> state \<Rightarrow> state" where
  "createNotification t s r p st =
     (if s = r then st
      else st\<lparr>Notifications := Notifications st @
                 [\<lparr>n_id = next_id st, n_type = t, n_sender = s, n_receiver = r,
                   n_postId = p, n_read = False, n_createdAt = clock st\<rparr>],
              next_id := Suc (next_id st), clock := Suc (clock st)\<rparr>)"

section \<open>Routes\<close>

text \<open>
  The handlers of the server on the native driver, each as a function of the user that
  \<^verbatim>\<open>auth\<close> attached and of the state, in the order of the source.
\<close>

text \<open>\<^verbatim>\<open>POST /api/register\<close>. \<^verbatim>\<open>bcrypt.hash\<close> throws on a password that is no string.\<close>

definition register :: "env \<Rightarrow> doc \<Rightarrow> state \<Rightarrow> state \<times> outcome" where
  "register e b st =
     (case field b ''password'' of
        Some (VStr pw) \<Rightarrow>
          (st\<lparr>Users := Users st @
                [(next_id st,
                  [(''username'', stored (field b ''username'')),
                   (''email'', stored (field b ''email'')),
                   (''password'', VStr (bcrypt_hash e pw)),
                   (''role'', VStr ''user''),
                   (''banned'', VBool False),
                   (''profileImage'', VStr []),
                   (''coverImage'', VStr []),
                   (''bio'', VStr []),
                   (''location'', VStr []),
                   (''dateOfBirth'', VNull),
                   (''followers'', VArr []),
                   (''following'', VArr []),
                   (''createdAt'', VDate (clock st))])],
              next_id := Suc (next_id st), clock := Suc (clock st)\<rparr>,
           Reply 200 (Msg ''User registered''))
      | _ \<Rightarrow> (st, Threw BcryptError))"

text \<open>
  \<^verbatim>\<open>POST /api/login\<close>. \<^verbatim>\<open>bcrypt.compare\<close> throws unless both the presented password
  and the stored one are strings.
\<close>

definition login :: "env \<Rightarrow> doc \<Rightarrow> state \<Rightarrow> state \<times> outcome" where
  "login e b st =
     (case find (\<lambda>u. field_matches e (field b ''email'') (field (snd u) ''email'')) (Users st) of
        None \<Rightarrow> (st, Reply 400 (Msg ''Invalid credentials''))
      | Some u \<Rightarrow>
          (case (field b ''password'', field (snd u) ''password'') of
             (Some (VStr pw), Some (VStr h)) \<Rightarrow>
               (if bcrypt_compare e pw h
                then (st, Reply 200 (LoginBody (jwt_sign e (fst u)) u))
                else (st, Reply 400 (Msg ''Invalid credentials'')))
           | _ \<Rightarrow> (st, Threw BcryptError)))"

text \<open>\<^verbatim>\<open>GET /api/me\<close>.\<close>

definition me :: "user \<Rightarrow> state \<Rightarrow> state \<times> outcome" where
  "me u st = (st, Reply 200 (MeBody u (filter (\<lambda>p. p_author p = fst u) (Posts st))))"

text \<open>\<^verbatim>\<open>PUT /api/profile\<close>: the request body is the \<^verbatim>\<open>$set\<close> document.\<close>

definition profile :: "env \<Rightarrow> doc \<Rightarrow> user \<Rightarrow> state \<Rightarrow> state \<times> outcome" where
  "profile e b u st =
     (case update_user (fst u) (op_set e b) (Users st) of
        Inl x \<Rightarrow> (st, Threw x)
      | Inr us \<Rightarrow> (st\<lparr>Users := us\<rparr>, Reply 200 (Msg ''Profile updated'')))"

text \<open>
  \<^verbatim>\<open>PUT /api/profile/avatar\<close> and \<^verbatim>\<open>/cover\<close> (\<open>k\<close> is \<^verbatim>\<open>profileImage\<close> or
  \<^verbatim>\<open>coverImage\<close>); \<^verbatim>\<open>req.file.buffer\<close> throws when no file was sent.
\<close>

definition profile_image :: "env \<Rightarrow> string \<Rightarrow> string option \<Rightarrow> user \<Rightarrow> state \<Rightarrow> state \<times> outcome" where
  "profile_image e k file u st =
     (case file of
        None \<Rightarrow> (st, Threw TypeError)
      | Some buffer \<Rightarrow>
          (case uploadToImgBB e buffer of
             None \<Rightarrow> (st, Threw UploadError)
           | Some img \<Rightarrow>
               (case update_user (fst u) (op_set e [(k, img)]) (Users st) of
                  Inl x \<Rightarrow> (st, Threw x)
                | Inr us \<Rightarrow> (st\<lparr>Users := us\<rparr>, Reply 200 (ValBody img)))))"

text \<open>\<^verbatim>\<open>POST /api/follow/:id\<close>: three writes in sequence, each of which may throw.\<close>

definition follow :: "string \<Rightarrow> user \<Rightarrow> state \<Rightarrow> state \<times> outcome" where
  "follow ident u st =
     (case ObjectId ident of
        None \<Rightarrow> (st, Threw BSONError)
      | Some targetId \<Rightarrow>
          (if targetId = fst u then (st, Reply 400 (Msg ''Cannot follow self''))
           else
             (case update_user (fst u) (op_addToSet ''following'' (VOid targetId)) (Users st) of
                Inl x \<Rightarrow> (st, Threw x)
              | Inr us1 \<Rightarrow>
                  (case update_user targetId (op_addToSet ''followers'' (VOid (fst u))) us1 of
                     Inl x \<Rightarrow> (st\<lparr>Users := us1\<rparr>, Threw x)
                   | Inr us2 \<Rightarrow>
                       (createNotification NFollow (fst u) targetId None (st\<lparr>Users := us2\<rparr>),
                        Reply 200 (Msg ''Followed''))))))"

text \<open>\<^verbatim>\<open>POST /api/unfollow/:id\<close>.\<close>

definition unfollow :: "string \<Rightarrow> user \<Rightarrow> state \<Rightarrow> state \<times> outcome" where
  "unfollow ident u st =
     (case ObjectId ident of
        None \<Rightarrow> (st, Threw BSONError)
      | Some targetId \<Rightarrow>
          (case update_user (fst u) (op_pull ''following'' (VOid targetId)) (Users st) of
             Inl x \<Rightarrow> (st, Threw x)
           | Inr us1 \<Rightarrow>
               (case update_user targetId (op_pull ''followers'' (VOid (fst u))) us1 of
                  Inl x \<Rightarrow> (st\<lparr>Users := us1\<rparr>, Threw x)
                | Inr us2 \<Rightarrow> (st\<lparr>Users := us2\<rparr>, Reply 200 (Msg ''Unfollowed'')))))"

text \<open>\<^verbatim>\<open>POST /api/posts\<close>.\<close>

definition create_post :: "env \<Rightarrow> doc \<Rightarrow> string option \<Rightarrow> user \<Rightarrow> state \<Rightarrow> state \<times> outcome" where
  "create_post e b file u st =
     (case (case file of None \<Rightarrow> Some VNull | Some buffer \<Rightarrow> uploadToImgBB e buffer) of
        None \<Rightarrow> (st, Threw UploadError)
      | Some img \<Rightarrow>
          (let post = \<lparr>p_id = next_id st, p_content = stored (field b ''content''), p_image = img,
                       p_author = fst u, p_likes = [], p_createdAt = clock st\<rparr>
           in (st\<lparr>Posts := Posts st @ [post], next_id := Suc (next_id st), clock := Suc (clock st)\<rparr>,
               Reply 200 (PostBody post))))"

text \<open>\<^verbatim>\<open>GET /api/posts\<close>: newest first.\<close>

definition get_posts :: "state \<Rightarrow> state \<times> outcome" where
  "get_posts st = (st, Reply 200 (PostsBody (sort_key (\<lambda>p. - int (p_createdAt p)) (Posts st))))"

text \<open>\<^verbatim>\<open>Posts.updateOne({ _id: i }, { $addToSet: { likes: a } })\<close>.\<close>

fun add_like :: "oid \<Rightarrow> oid \<Rightarrow> post list \<Rightarrow> post list" where
  "add_like i a [] = []"
| "add_like i a (p # ps) =
     (if p_id p = i then p\<lparr>p_likes := (if a \<in> set (p_likes p) then p_likes p else p_likes p @ [a])\<rparr> # ps
      else p # add_like i a ps)"

text \<open>
  \<^verbatim>\<open>PUT /api/posts/:id/like\<close>. \<^verbatim>\<open>findOne\<close> yields null for an unknown id, and
  reading \<^verbatim>\<open>post.likes\<close> then throws.
\<close>

definition like_post :: "string \<Rightarrow> user \<Rightarrow> state \<Rightarrow> state \<times> outcome" where
  "like_post ident u st =
     (case ObjectId ident of
        None \<Rightarrow> (st, Threw BSONError)
      | Some postId \<Rightarrow>
          (case find (\<lambda>p. p_id p = postId) (Posts st) of
             None \<Rightarrow> (st, Threw TypeError)
           | Some post \<Rightarrow>
               (if fst u \<notin> set (p_likes post)
                then (createNotification NLike (fst u) (p_author post) (Some postId)
                        (st\<lparr>Posts := add_like postId (fst u) (Posts st)\<rparr>),
                      Reply 200 (Msg ''Liked''))
                else (st, Reply 200 (Msg ''Liked'')))))"

text \<open>
  \<^verbatim>\<open>POST /api/posts/:id/comments\<close>. The comment is inserted before \<^verbatim>\<open>post.author\<close>
  is read for the notification, and that read throws when the post is null.
\<close>

definition add_comment :: "string \<Rightarrow> doc \<Rightarrow> user \<Rightarrow> state \<Rightarrow> state \<times> outcome" where
  "add_comment ident b u st =
     (case ObjectId ident of
        None \<Rightarrow> (st, Threw BSONError)
      | Some postId \<Rightarrow>
          (let post = find (\<lambda>p. p_id p = postId) (Posts st);
               comment = \<lparr>c_id = next_id st, c_text = stored (field b ''text''), c_postId = postId,
                          c_author = fst u, c_createdAt = clock st\<rparr>;
               st1 = st\<lparr>Comments := Comments st @ [comment], next_id := Suc (next_id st),
                        clock := Suc (clock st)\<rparr>
           in (case post of
                 None \<Rightarrow> (st1, Threw TypeError)
               | Some p \<Rightarrow>
                   (createNotification NComment (fst u) (p_author p) (Some postId) st1,
                    Reply 200 (CommentBody comment)))))"

text \<open>\<^verbatim>\<open>GET /api/notifications\<close>: the caller's, newest first.\<close>

definition list_notifications :: "user \<Rightarrow> state \<Rightarrow> state \<times> outcome" where
  "list_notifications u st =
     (st, Reply 200 (NotifsBody (sort_key (\<lambda>n. - int (n_createdAt n))
                       (filter (\<lambda>n. n_receiver n = fst u) (Notifications st)))))"

text \<open>\<^verbatim>\<open>PUT /api/notifications/read-all\<close>.\<close>

definition read_all :: "user \<Rightarrow> state \<Rightarrow> state \<times> outcome" where
  "read_all u st =
     (st\<lparr>Notifications := map (\<lambda>n. if n_receiver n = fst u then n\<lparr>n_read := True\<rparr> else n)
                              (Notifications st)\<rparr>,
      Reply 200 (Msg ''All read''))"

text \<open>\<^verbatim>\<open>PUT /api/admin/users/:id/ban\<close>, behind \<^verbatim>\<open>auth\<close> and \<^verbatim>\<open>adminOnly\<close>.\<close>

definition ban_user :: "env \<Rightarrow> string \<Rightarrow> user \<Rightarrow> state \<Rightarrow> state \<times> outcome" where
  "ban_user e ident u st =
     (case ObjectId ident of
        None \<Rightarrow> (st, Threw BSONError)
      | Some i \<Rightarrow>
          (case update_user i (op_set e [(''banned'', VBool True)]) (Users st) of
             Inl x \<Rightarrow> (st, Threw x)
           | Inr us \<Rightarrow> (st\<lparr>Users := us\<rparr>, Reply 200 (Msg ''User banned''))))"

text \<open>\<^verbatim>\<open>deleteOne\<close>: the first match goes.\<close>

fun delete_one :: "('a \<Rightarrow> bool) \<Rightarrow> 'a list \<Rightarrow> 'a list" where
  "delete_one P [] = []"
| "delete_one P (x # xs) = (if P x then xs else x # delete_one P xs)"

text \<open>\<^verbatim>\<open>DELETE /api/admin/posts/:id\<close>, behind \<^verbatim>\<open>auth\<close> and \<^verbatim>\<open>adminOnly\<close>.\<close>

definition admin_delete_post :: "string \<Rightarrow> user \<Rightarrow> state \<Rightarrow> state \<times> outcome" where
  "admin_delete_post ident u st =
     (case ObjectId ident of
        None \<Rightarrow> (st, Threw BSONError)
      | Some i \<Rightarrow>
          (st\<lparr>Posts := delete_one (\<lambda>p. p_id p = i) (Posts st),
              Comments := filter (\<lambda>c. c_postId c \<noteq> i) (Comments st)\<rparr>,
           Reply 200 (Msg ''Post removed'')))"

section \<open>The server\<close>

text \<open>A request: the route, the \<^verbatim>\<open>Authorization\<close> header, \<^verbatim>\<open>:id\<close>, the body, the file.\<close>

datatype request =
    Register doc
  | Login doc
  | Me "string option"
  | Profile "string option" doc
  | Avatar "string option" "string option"
  | Cover "string option" "string option"
  | Follow "string option" string
  | Unfollow "string option" string
  | CreatePost "string option" doc "string option"
  | GetPosts
  | Like "string option" string
  | AddComment "string option" string doc
  | ListNotifications "string option"
  | ReadAll "string option"
  | Ban "string option" string
  | AdminDeletePost "string option" string

fun handle :: "env \<Rightarrow> request \<Rightarrow> state \<Rightarrow> state \<times> outcome" where
  "handle e (Register b) st = register e b st"
| "handle e (Login b) st = login e b st"
| "handle e (Me hdr) st = with_auth e hdr me st"
| "handle e (Profile hdr b) st = with_auth e hdr (profile e b) st"
| "handle e (Avatar hdr file) st = with_auth e hdr (profile_image e ''profileImage'' file) st"
| "handle e (Cover hdr file) st = with_auth e hdr (profile_image e ''coverImage'' file) st"
| "handle e (Follow hdr ident) st = with_auth e hdr (follow ident) st"
| "handle e (Unfollow hdr ident) st = with_auth e hdr (unfollow ident) st"
| "handle e (CreatePost hdr b file) st = with_auth e hdr (create_post e b file) st"
| "handle e GetPosts st = get_posts st"
| "handle e (Like hdr ident) st = with_auth e hdr (like_post ident) st"
| "handle e (AddComment hdr ident b) st = with_auth e hdr (add_comment ident b) st"
| "handle e (ListNotifications hdr) st = with_auth e hdr list_notifications st"
| "handle e (ReadAll hdr) st = with_auth e hdr read_all st"
| "handle e (Ban hdr ident) st = with_auth e hdr (with_admin (ban_user e ident)) st"
| "handle e (AdminDeletePost hdr ident) st = with_auth e hdr (with_admin (admin_delete_post ident)) st"

text \<open>The header of a request to a route behind \<^verbatim>\<open>auth\<close>; \<open>None\<close> for a public route.\<close>

fun auth_header :: "request \<Rightarrow> string option option" where
  "auth_header (Register b) = None"
| "auth_header (Login b) = None"
| "auth_header GetPosts = None"
| "auth_header (Me hdr) = Some hdr"
| "auth_header (Profile hdr b) = Some hdr"
| "auth_header (Avatar hdr file) = Some hdr"
| "auth_header (Cover hdr file) = Some hdr"
| "auth_header (Follow hdr ident) = Some hdr"
| "auth_header (Unfollow hdr ident) = Some hdr"
| "auth_header (CreatePost hdr b file) = Some hdr"
| "auth_header (Like hdr ident) = Some hdr"
| "auth_header (AddComment hdr ident b) = Some hdr"
| "auth_header (ListNotifications hdr) = Some hdr"
| "auth_header (ReadAll hdr) = Some hdr"
| "auth_header (Ban hdr ident) = Some hdr"
| "auth_header (AdminDeletePost hdr ident) = Some hdr"

text \<open>The state after a sequence of requests.\<close>

fun run :: "env \<Rightarrow> request list \<Rightarrow> state \<Rightarrow> state" where
  "run e [] st = st"
| "run e (r # rs) st = run e rs (fst (handle e r st))"

section \<open>The server on the identity provider's tokens\<close>

text \<open>
  \<^verbatim>\<open>index.js\<close> keeps the same collections and the same handlers for the profile, the
  profile images, follow, comments, the notification list and the ban, behind a
  different \<^verbatim>\<open>auth\<close>: the token is verified by the identity provider, the user is looked
  up by the verified email and inserted on first sight.
\<close>

definition auth3 :: "env \<Rightarrow> string option \<Rightarrow> state \<Rightarrow> state \<times> (outcome + user)" where
  "auth3 e hdr st =
     (case hdr of
        None \<Rightarrow> (st, Inl (Reply 401 (Msg ''No token'')))
      | Some header \<Rightarrow>
          (if header = [] then (st, Inl (Reply 401 (Msg ''No token'')))
           else
             (case (case split_sp header of _ # token # _ \<Rightarrow> verifyIdToken e token | _ \<Rightarrow> None) of
                None \<Rightarrow> (st, Inl (Reply 401 (Msg ''Invalid Firebase token'')))
              | Some decoded \<Rightarrow>
                  (case find (\<lambda>u. field_matches e (field decoded ''email'') (field (snd u) ''email''))
                          (Users st) of
                     Some u \<Rightarrow>
                       (if truthy (field (snd u) ''banned'')
                        then (st, Inl (Reply 403 (Msg ''User banned'')))
                        else (st, Inr u))
                   | None \<Rightarrow>
                       (let newUser =
                              [(''fullName'', (if truthy (field decoded ''name'')
                                               then stored (field decoded ''name'') else VStr [])),
                               (''email'', stored (field decoded ''email'')),
                               (''role'', VStr ''user''),
                               (''banned'', VBool False),
                               (''profileImage'', VStr []),
                               (''coverImage'', VStr []),
                               (''bio'', VStr []),
                               (''location'', VStr []),
                               (''dateOfBirth'', VNull),
                               (''followers'', VArr []),
                               (''following'', VArr []),
                               (''createdAt'', VDate (clock st))]
                        in (st\<lparr>Users := Users st @ [(next_id st, newUser)],
                                next_id := Suc (next_id st), clock := Suc (clock st)\<rparr>,
                            Inr (next_id st, newUser)))))))"

definition with_auth3 ::
  "env \<Rightarrow> string option \<Rightarrow> (user \<Rightarrow> state \<Rightarrow> state \<times> outcome) \<Rightarrow> state \<Rightarrow> state \<times> outcome" where
  "with_auth3 e hdr h st =
     (case auth3 e hdr st of (st', Inl r) \<Rightarrow> (st', r) | (st', Inr u) \<Rightarrow> h u st')"

text \<open>
  \<^verbatim>\<open>Users.updateOne(filter, { $set: ... }, { upsert: true })\<close> with the filter on
  \<^verbatim>\<open>email\<close>: the first match is updated; without one a document is inserted that holds
  the fields set.
\<close>

fun update_by_email :: "env \<Rightarrow> val option \<Rightarrow> (user \<Rightarrow> exn + user) \<Rightarrow> user list \<Rightarrow> (exn + user list) option" where
  "update_by_email e q f [] = None"
| "update_by_email e q f (u # us) =
     (if field_matches e q (field (snd u) ''email'')
      then Some (case f u of Inl x \<Rightarrow> Inl x | Inr u' \<Rightarrow> Inr (u' # us))
      else (case update_by_email e q f us of
              None \<Rightarrow> None
            | Some (Inl x) \<Rightarrow> Some (Inl x)
            | Some (Inr us') \<Rightarrow> Some (Inr (u # us'))))"

text \<open>\<^verbatim>\<open>POST /api/register\<close> of \<^verbatim>\<open>index.js\<close>.\<close>

definition register3 :: "env \<Rightarrow> doc \<Rightarrow> state \<Rightarrow> state \<times> outcome" where
  "register3 e b st =
     (let fs = [(''fullName'', stored (field b ''fullName'')), (''email'', stored (field b ''email''))]
      in case update_by_email e (field b ''email'') (op_set e fs) (Users st) of
           Some (Inl x) \<Rightarrow> (st, Threw x)
         | Some (Inr us) \<Rightarrow> (st\<lparr>Users := us\<rparr>, Reply 200 (Msg ''User profile saved''))
         | None \<Rightarrow>
             (st\<lparr>Users := Users st @ [(next_id st, fs)], next_id := Suc (next_id st)\<rparr>,
              Reply 200 (Msg ''User profile saved'')))"

text \<open>A field of a JSON response: left out when \<^verbatim>\<open>undefined\<close>.\<close>

definition json_field :: "string \<Rightarrow> val option \<Rightarrow> doc" where
  "json_field k v = (case v of None \<Rightarrow> [] | Some x \<Rightarrow> [(k, x)])"

text \<open>
  \<^verbatim>\<open>POST /api/posts\<close> of \<^verbatim>\<open>index.js\<close>: whatever is thrown is caught and answered 500;
  the response carries the author's id, name and image.
\<close>

definition create_post3 :: "env \<Rightarrow> doc \<Rightarrow> string option \<Rightarrow> user \<Rightarrow> state \<Rightarrow> state \<times> outcome" where
  "create_post3 e b file u st =
     (case (case file of None \<Rightarrow> Some VNull | Some buffer \<Rightarrow> uploadToImgBB e buffer) of
        None \<Rightarrow> (st, Reply 500 (Msg ''Post creation failed''))
      | Some img \<Rightarrow>
          (let post = \<lparr>p_id = next_id st, p_content = stored (field b ''content''), p_image = img,
                       p_author = fst u, p_likes = [], p_createdAt = clock st\<rparr>
           in (st\<lparr>Posts := Posts st @ [post], next_id := Suc (next_id st), clock := Suc (clock st)\<rparr>,
               Reply 200 (PostAuthorBody post
                 ((''_id'', VOid (fst u)) # json_field ''fullName'' (field (snd u) ''fullName'')
                    @ json_field ''profileImage'' (field (snd u) ''profileImage''))))))"

datatype request3 =
    Register3 doc
  | Me3 "string option"
  | Profile3 "string option" doc
  | Avatar3 "string option" "string option"
  | Cover3 "string option" "string option"
  | Follow3 "string option" string
  | CreatePost3 "string option" doc "string option"
  | AddComment3 "string option" string doc
  | ListNotifications3 "string option"
  | Ban3 "string option" string

fun handle3 :: "env \<Rightarrow> request3 \<Rightarrow> state \<Rightarrow> state \<times> outcome" where
  "handle3 e (Register3 b) st = register3 e b st"
| "handle3 e (Me3 hdr) st = with_auth3 e hdr me st"
| "handle3 e (Profile3 hdr b) st = with_auth3 e hdr (profile e b) st"
| "handle3 e (Avatar3 hdr file) st = with_auth3 e hdr (profile_image e ''profileImage'' file) st"
| "handle3 e (Cover3 hdr file) st = with_auth3 e hdr (profile_image e ''coverImage'' file) st"
| "handle3 e (Follow3 hdr ident) st = with_auth3 e hdr (follow ident) st"
| "handle3 e (CreatePost3 hdr b file) st = with_auth3 e hdr (create_post3 e b file) st"
| "handle3 e (AddComment3 hdr ident b) st = with_auth3 e hdr (add_comment ident b) st"
| "handle3 e (ListNotifications3 hdr) st = with_auth3 e hdr list_notifications st"
| "handle3 e (Ban3 hdr ident) st = with_auth3 e hdr (with_admin (ban_user e ident)) st"

fun run3 :: "env \<Rightarrow> request3 list \<Rightarrow> state \<Rightarrow> state" where
  "run3 e [] st = st"
| "run3 e (r # rs) st = run3 e rs (fst (handle3 e r st))"

section \<open>The author's delete route of the mongoose server\<close>

text \<open>
  The server on mongoose keeps posts and comments with the same fields (its comment's
  \<^verbatim>\<open>post\<close> is \<open>c_postId\<close>), has no roles, and its \<^verbatim>\<open>auth\<close> only verifies the token and
  attaches \<^verbatim>\<open>decoded.id\<close> as \<^verbatim>\<open>req.userId\<close>.
\<close>

definition auth_v1 :: "env \<Rightarrow> string option \<Rightarrow> outcome + string" where
  "auth_v1 e hdr =
     (case bearer hdr of
        None \<Rightarrow> Inl (Reply 401 (Msg ''No token''))
      | Some token \<Rightarrow>
          (case jwt_verify e token of
             None \<Rightarrow> Inl (Reply 401 (Msg ''Invalid token''))
           | Some userId \<Rightarrow> Inr userId))"

text \<open>
  \<^verbatim>\<open>DELETE /api/posts/:id\<close>. \<^verbatim>\<open>findById\<close> throws a cast error on an id that is no
  ObjectId and yields null for an unknown one, on which \<^verbatim>\<open>post.author\<close> throws.
\<close>

definition delete_post_v1 :: "string \<Rightarrow> string \<Rightarrow> state \<Rightarrow> state \<times> outcome" where
  "delete_post_v1 ident userId st =
     (case ObjectId ident of
        None \<Rightarrow> (st, Threw CastError)
      | Some i \<Rightarrow>
          (case find (\<lambda>p. p_id p = i) (Posts st) of
             None \<Rightarrow> (st, Threw TypeError)
           | Some post \<Rightarrow>
               (if toString (p_author post) \<noteq> userId then (st, Reply 403 (Msg ''Not allowed''))
                else (st\<lparr>Posts := delete_one (\<lambda>p. p_id p = p_id post) (Posts st),
                         Comments := filter (\<lambda>c. c_postId c \<noteq> p_id post) (Comments st)\<rparr>,
                      Reply 200 (Msg ''Post deleted'')))))"

definition delete_post_route_v1 :: "env \<Rightarrow> string option \<Rightarrow> string \<Rightarrow> state \<Rightarrow> state \<times> outcome" where
  "delete_post_route_v1 e hdr ident st =
     (case auth_v1 e hdr of Inl r \<Rightarrow> (st, r) | Inr userId \<Rightarrow> delete_post_v1 ident userId st)"

section \<open>Properties of states\<close>

text \<open>
  A value refers to the identity \<open>i\<close> when it is that ObjectId, or a string that reads as
  it: the server itself compares identities by their string forms, and its JSON
  responses show an ObjectId as that string.
\<close>

definition refers :: "oid \<Rightarrow> val \<Rightarrow> bool" where
  "refers i v = (case v of VOid j \<Rightarrow> j = i | VStr s \<Rightarrow> ObjectId s = Some i | _ \<Rightarrow> False)"

text \<open>The elements of an array field; none when the field is missing or no array.\<close>

definition array_elems :: "val option \<Rightarrow> val list" where
  "array_elems v = (case v of Some (VArr xs) \<Rightarrow> xs | _ \<Rightarrow> [])"

text \<open>The user appears in its own array field \<open>k\<close>.\<close>

definition self_in :: "string \<Rightarrow> user \<Rightarrow> bool" where
  "self_in k u = list_ex (refers (fst u)) (array_elems (field (snd u) k))"

definition self_free_user :: "user \<Rightarrow> bool" where
  "self_free_user u = (\<not> self_in ''followers'' u \<and> \<not> self_in ''following'' u)"

definition self_free :: "state \<Rightarrow> bool" where
  "self_free st = list_all self_free_user (Users st)"

definition notifications_ok :: "state \<Rightarrow> bool" where
  "notifications_ok st = list_all (\<lambda>n. n_sender n \<noteq> n_receiver n) (Notifications st)"

text \<open>How often an identity occurs in an array field of a user document.\<close>

definition occurrences :: "oid \<Rightarrow> string \<Rightarrow> user \<Rightarrow> nat" where
  "occurrences i k u = count_list (array_elems (field (snd u) k)) (VOid i)"

text \<open>
  The fields of the document that an update document writes: the first component of each
  of its paths.
\<close>

definition written_fields :: "doc \<Rightarrow> string set" where
  "written_fields b = set (map (\<lambda>kv. hd (split_dot (fst kv))) b)"

text \<open>
  A profile update with a key that is \<^verbatim>\<open>followers\<close> or \<^verbatim>\<open>following\<close>, or a path into
  one of them (\<^verbatim>\<open>following.0\<close>, \<^verbatim>\<open>followers.$[]\<close>).
\<close>

fun writes_follow_fields :: "request \<Rightarrow> bool" where
  "writes_follow_fields (Profile hdr b) =
     (''followers'' \<in> written_fields b \<or> ''following'' \<in> written_fields b)"
| "writes_follow_fields _ = False"

fun writes_follow_fields3 :: "request3 \<Rightarrow> bool" where
  "writes_follow_fields3 (Profile3 hdr b) =
     (''followers'' \<in> written_fields b \<or> ''following'' \<in> written_fields b)"
| "writes_follow_fields3 _ = False"



fun auth_header3 :: "request3 \<Rightarrow> string option option" where
  "auth_header3 (Register3 b) = None"
| "auth_header3 (Me3 hdr) = Some hdr"
| "auth_header3 (Profile3 hdr b) = Some hdr"
| "auth_header3 (Avatar3 hdr upl) = Some hdr"
| "auth_header3 (Cover3 hdr upl) = Some hdr"
| "auth_header3 (Follow3 hdr ident) = Some hdr"
| "auth_header3 (CreatePost3 hdr b upl) = Some hdr"
| "auth_header3 (AddComment3 hdr ident b) = Some hdr"
| "auth_header3 (ListNotifications3 hdr) = Some hdr"
| "auth_header3 (Ban3 hdr ident) = Some hdr"

text \<open>Post ids are pairwise different and below the driver's counter.\<close>

definition posts_ok :: "state \<Rightarrow> bool" where
  "posts_ok st = (distinct (map p_id (Posts st)) \<and> list_all (\<lambda>i. i < next_id st) (map p_id (Posts st)))"

section \<open>A test double of the outside world, and sample data\<close>

definition env0 :: env where
  "env0 = \<lparr>jwt_verify = (\<lambda>t. if take 4 t = ''jwt.'' then Some (drop 4 t) else None),
           jwt_sign = (\<lambda>i. ''jwt.'' @ toString i),
           verifyIdToken = (\<lambda>t. if take 3 t = ''fb.''
                                 then Some [(''email'', VStr (drop 3 t)), (''name'', VStr ''A'')]
                                 else None),
           bcrypt_hash = (\<lambda>pw. ''$2a$10$'' @ pw),
           bcrypt_compare = (\<lambda>pw h. h = ''$2a$10$'' @ pw),
           uploadToImgBB = (\<lambda>buffer. Some (VStr (''https://i.ibb.co/'' @ buffer))),
           query_ops = (\<lambda>ops s. False),
           server5 = True\<rparr>"

definition id0 :: string where
  "id0 = ''000000000000000000000000''"

definition id1 :: string where
  "id1 = ''000000000000000000000001''"

definition id2 :: string where
  "id2 = ''000000000000000000000002''"

definition id9 :: string where
  "id9 = ''000000000000000000000009''"

definition hdr0 :: "string option" where
  "hdr0 = Some ''Bearer jwt.000000000000000000000000''"

definition hdr1 :: "string option" where
  "hdr1 = Some ''Bearer jwt.000000000000000000000001''"

definition alice_form :: doc where
  "alice_form = [(''username'', VStr ''alice''), (''email'', VStr ''a@x.com''), (''password'', VStr ''pw1'')]"

definition bob_form :: doc where
  "bob_form = [(''username'', VStr ''bob''), (''email'', VStr ''b@x.com''), (''password'', VStr ''pw2'')]"

definition user_doc ::
  "string \<Rightarrow> string \<Rightarrow> string \<Rightarrow> string \<Rightarrow> val \<Rightarrow> nat \<Rightarrow> doc" where
  "user_doc name email hash role banned t =
     [(''username'', VStr name), (''email'', VStr email), (''password'', VStr hash),
      (''role'', VStr role), (''banned'', banned), (''profileImage'', VStr []),
      (''coverImage'', VStr []), (''bio'', VStr []), (''location'', VStr []),
      (''dateOfBirth'', VNull), (''followers'', VArr []), (''following'', VArr []),
      (''createdAt'', VDate t)]"

definition alice :: user where
  "alice = (0, user_doc ''alice'' ''a@x.com'' ''$2a$10$pw1'' ''user'' (VBool False) 0)"

definition bob :: user where
  "bob = (1, user_doc ''bob'' ''b@x.com'' ''$2a$10$pw2'' ''user'' (VBool False) 1)"

definition alice_banned :: user where
  "alice_banned = (0, user_doc ''alice'' ''a@x.com'' ''$2a$10$pw1'' ''user'' (VBool True) 0)"

definition bob_admin :: user where
  "bob_admin = (1, user_doc ''bob'' ''b@x.com'' ''$2a$10$pw2'' ''admin'' (VBool False) 1)"

text \<open>Alice and Bob registered, in this order.\<close>

definition st2 :: state where
  "st2 = \<lparr>Users = [alice, bob], Posts = [], Comments = [], Notifications = [],
          next_id = 2, clock = 2\<rparr>"

text \<open>Then Alice posted.\<close>

definition alice_post :: post where
  "alice_post = \<lparr>p_id = 2, p_content = VStr ''hello'', p_image = VNull, p_author = 0,
                 p_likes = [], p_createdAt = 2\<rparr>"

definition st3 :: state where
  "st3 = \<lparr>Users = [alice, bob], Posts = [alice_post], Comments = [], Notifications = [],
          next_id = 3, clock = 3\<rparr>"

text \<open>Then Bob commented on the post.\<close>

definition bob_comment :: comment where
  "bob_comment = \<lparr>c_id = 3, c_text = VStr ''hi'', c_postId = 2, c_author = 1, c_createdAt = 3\<rparr>"

definition st4 :: state where
  "st4 = \<lparr>Users = [alice, bob], Posts = [alice_post], Comments = [bob_comment],
          Notifications = [\<lparr>n_id = 4, n_type = NComment, n_sender = 1, n_receiver = 0,
                            n_postId = Some 2, n_read = False, n_createdAt = 4\<rparr>],
          next_id = 5, clock = 5\<rparr>"

text \<open>Alice banned, everything else as in \<open>st2\<close>.\<close>

definition st_banned :: state where
  "st_banned = \<lparr>Users = [alice_banned, bob], Posts = [], Comments = [], Notifications = [],
                next_id = 2, clock = 2\<rparr>"

text \<open>The same with Bob an administrator.\<close>

definition st4_admin :: state where
  "st4_admin = st4\<lparr>Users := [alice, bob_admin]\<rparr>"

section \<open>Basic facts\<close>

lemmas route_defs = register_def login_def me_def profile_def profile_image_def follow_def
  unfollow_def create_post_def get_posts_def like_post_def add_comment_def
  list_notifications_def read_all_def ban_user_def admin_delete_post_def

lemmas gate_defs = with_auth_def auth_def with_admin_def adminOnly_def bearer_def ObjectId_def
  hex_digit_def find_user_def

lemmas db_defs = field_def stored_def op_set_def op_addToSet_def op_pull_def set_path_def dollar_def
  needs_filter_def sort_paths_def name_less_def array_index_def
  field_matches_def createNotification_def

lemmas sample_defs = env0_def id0_def id1_def id2_def id9_def hdr0_def hdr1_def alice_form_def
  bob_form_def user_doc_def alice_def bob_def alice_banned_def st2_def st3_def st4_def
  alice_post_def bob_comment_def st_banned_def init_def bob_admin_def st4_admin_def

section \<open>ObjectIds and their string forms\<close>

lemma hex_char_inject:
  assumes "a < 16" and "b < 16" and "hex_char a = hex_char b"
  shows "a = b"
proof -
  have "distinct ''0123456789abcdef''" by simp
  moreover have "length ''0123456789abcdef'' = 16" by simp
  ultimately show ?thesis
    using assms by (simp add: hex_char_def nth_eq_iff_index_eq)
qed

lemma to_hex_inject:
  "to_hex k a = to_hex k b \<Longrightarrow> a mod 16 ^ k = b mod 16 ^ k"
proof (induction k arbitrary: a b)
  case 0
  then show ?case by simp
next
  case (Suc k)
  from Suc.prems have "to_hex k (a div 16) @ [hex_char (a mod 16)] =
      to_hex k (b div 16) @ [hex_char (b mod 16)]"
    by (simp add: to_hex.simps [of "Suc k"])
  then have 1: "to_hex k (a div 16) = to_hex k (b div 16)"
    and 2: "hex_char (a mod 16) = hex_char (b mod 16)"
    by simp_all
  from 2 have low: "a mod 16 = b mod 16"
    by (rule hex_char_inject [rotated 2]) simp_all
  from Suc.IH [OF 1] have high: "(a div 16) mod 16 ^ k = (b div 16) mod 16 ^ k" .
  have "a mod 16 ^ Suc k = 16 * ((a div 16) mod 16 ^ k) + a mod 16" for a :: nat
    by (simp add: mod_mult2_eq)
  with low high show ?case by simp
qed

text \<open>
  On ObjectIds, the numbers below \<open>2 ^ 96\<close>, equal string forms mean equal ids; this is
  why the model compares ids where the source compares their \<^verbatim>\<open>toString()\<close>.
\<close>

lemma toString_inject:
  assumes "i < 16 ^ 24" and "j < 16 ^ 24" and "toString i = toString j"
  shows "i = j"
  using to_hex_inject [of 24 i j] assms by (simp add: toString_def)

lemma hex_digit_bound: "hex_digit c = Some d \<Longrightarrow> d < 16"
  by (auto simp: hex_digit_def Let_def split: if_splits)

lemma hex_value_bound:
  "hex_value acc cs = Some n \<Longrightarrow> acc < 16 ^ m \<Longrightarrow> n < 16 ^ (m + length cs)"
proof (induction cs arbitrary: acc m)
  case Nil
  then show ?case by simp
next
  case (Cons c cs)
  from Cons.prems(1) obtain d where d: "hex_digit c = Some d" "hex_value (16 * acc + d) cs = Some n"
    by (auto split: option.splits)
  from hex_digit_bound [OF d(1)] Cons.prems(2) have "16 * acc + d < 16 ^ Suc m"
    by simp
  from Cons.IH [OF d(2) this] show ?case by simp
qed

lemma ObjectId_bound: "ObjectId s = Some i \<Longrightarrow> i < 16 ^ 24"
  using hex_value_bound [of 0 s i 0] by (simp add: ObjectId_def split: if_splits)

lemma toString_0: "toString 0 = id0"
  by (simp add: toString_def id0_def to_hex.simps hex_char_def)

lemma toString_1: "toString 1 = id1"
  by (simp add: toString_def id1_def to_hex.simps hex_char_def)

lemma ObjectId_id0: "ObjectId id0 = Some 0"
  by (simp add: ObjectId_def id0_def hex_digit_def)

lemma ObjectId_id1: "ObjectId id1 = Some 1"
  by (simp add: ObjectId_def id1_def hex_digit_def)

lemma ObjectId_id2: "ObjectId id2 = Some 2"
  by (simp add: ObjectId_def id2_def hex_digit_def)

lemma ObjectId_id9: "ObjectId id9 = Some 9"
  by (simp add: ObjectId_def id9_def hex_digit_def)

lemma auth_hdr0_st2: "auth env0 hdr0 st2 = Inr alice"
  by (simp add: gate_defs db_defs sample_defs)

lemma auth_hdr1_st2: "auth env0 hdr1 st2 = Inr bob"
  by (simp add: gate_defs db_defs sample_defs)



lemma auth_Inr_not_banned: "auth e hdr st = Inr u \<Longrightarrow> \<not> truthy (field (snd u) ''banned'')"
  by (auto simp: auth_def split: option.splits if_splits)

lemma update_user_all:
  assumes "update_user i f us = Inr us'"
    and "list_all P us"
    and "\<And>u u'. fst u = i \<Longrightarrow> P u \<Longrightarrow> f u = Inr u' \<Longrightarrow> P u'"
  shows "list_all P us'"
  using assms(1,2)
proof (induction us arbitrary: us')
  case Nil
  then show ?case by simp
next
  case (Cons u us)
  show ?case
  proof (cases "fst u = i")
    case True
    with Cons.prems obtain u' where "f u = Inr u'" and "us' = u' # us"
      by (auto split: sum.splits)
    with True Cons.prems(2) assms(3) show ?thesis by auto
  next
    case False
    with Cons.prems obtain r where "update_user i f us = Inr r" and "us' = u # r"
      by (auto split: sum.splits)
    with Cons.IH Cons.prems(2) show ?thesis by auto
  qed
qed


lemma update_user_none: "find_user i us = None \<Longrightarrow> update_user i f us = Inr us"
  by (induction us) (auto simp: find_user_def)

lemma find_user_split:
  "\<forall>w \<in> set pre. fst w \<noteq> i \<Longrightarrow> fst u = i \<Longrightarrow> find_user i (pre @ u # post) = Some u"
  by (induction pre) (auto simp: find_user_def)

lemma find_user_split_other:
  "fst u = i \<Longrightarrow> fst u' = i \<Longrightarrow> j \<noteq> i \<Longrightarrow>
     find_user j (pre @ u' # post) = find_user j (pre @ u # post)"
  by (induction pre) (auto simp: find_user_def)

section \<open>The access gate\<close>

lemma with_auth_banned:
  assumes "bearer hdr = Some token"
    and "jwt_verify e token = Some decoded_id"
    and "ObjectId decoded_id = Some i"
    and "find_user i (Users st) = Some u"
    and "truthy (field (snd u) ''banned'')"
  shows "with_auth e hdr h st = (st, Reply 403 (Msg ''Access denied''))"
  using assms by (simp add: with_auth_def auth_def)

text \<open>
  C1. A request to any route behind \<^verbatim>\<open>auth\<close> whose token verifies and names a user whose
  \<^verbatim>\<open>banned\<close> field is truthy is answered 403 by the gate, and the state is the one before
  the request: no handler ran.
\<close>

theorem banned_identity_rejected:
  assumes "auth_header req = Some hdr"
    and "bearer hdr = Some token"
    and "jwt_verify e token = Some decoded_id"
    and "ObjectId decoded_id = Some i"
    and "find_user i (Users st) = Some u"
    and "truthy (field (snd u) ''banned'')"
  shows "handle e req st = (st, Reply 403 (Msg ''Access denied''))"
  using assms(1) with_auth_banned [OF assms(2-6)]
  by (cases req) simp_all

theorem banned_identity_rejected_witness:
  "auth_header (Profile hdr0 [(''banned'', VBool False)]) = Some hdr0
   \<and> bearer hdr0 = Some (''jwt.'' @ id0)
   \<and> jwt_verify env0 (''jwt.'' @ id0) = Some id0
   \<and> ObjectId id0 = Some 0
   \<and> find_user 0 (Users st_banned) = Some alice_banned
   \<and> truthy (field (snd alice_banned) ''banned'')
   \<and> handle env0 (Profile hdr0 [(''banned'', VBool False)]) st_banned
       = (st_banned, Reply 403 (Msg ''Access denied''))"
proof -
  have 1: "auth_header (Profile hdr0 [(''banned'', VBool False)]) = Some hdr0" by simp
  have 2: "bearer hdr0 = Some (''jwt.'' @ id0)" by (simp add: bearer_def hdr0_def id0_def)
  have 3: "jwt_verify env0 (''jwt.'' @ id0) = Some id0" by (simp add: env0_def)
  have 4: "ObjectId id0 = Some 0" by (rule ObjectId_id0)
  have 5: "find_user 0 (Users st_banned) = Some alice_banned"
    by (simp add: find_user_def st_banned_def alice_banned_def)
  have 6: "truthy (field (snd alice_banned) ''banned'')"
    by (simp add: alice_banned_def user_doc_def field_def)
  from banned_identity_rejected [OF 1 2 3 4 5 6] 1 2 3 4 5 6 show ?thesis by blast
qed

section \<open>Notifications\<close>

lemma createNotification_ok:
  "notifications_ok st \<Longrightarrow> notifications_ok (createNotification t s r p st)"
  by (simp add: notifications_ok_def createNotification_def)

lemma notifications_ok_Users [simp]:
  "notifications_ok (st\<lparr>Users := us\<rparr>) = notifications_ok st"
  by (simp add: notifications_ok_def)

lemma notifications_ok_Posts [simp]:
  "notifications_ok (st\<lparr>Posts := ps\<rparr>) = notifications_ok st"
  by (simp add: notifications_ok_def)

lemma notifications_ok_Comments [simp]:
  "notifications_ok (st\<lparr>Comments := cs\<rparr>) = notifications_ok st"
  by (simp add: notifications_ok_def)

lemma notifications_ok_next_id [simp]:
  "notifications_ok (st\<lparr>next_id := n\<rparr>) = notifications_ok st"
  by (simp add: notifications_ok_def)

lemma notifications_ok_clock [simp]:
  "notifications_ok (st\<lparr>clock := n\<rparr>) = notifications_ok st"
  by (simp add: notifications_ok_def)

lemma register_ok: "notifications_ok st \<Longrightarrow> notifications_ok (fst (register e b st))"
  by (simp add: register_def split: option.splits val.splits)

lemma login_ok: "notifications_ok st \<Longrightarrow> notifications_ok (fst (login e b st))"
  by (simp add: login_def split: option.splits val.splits prod.splits)

lemma profile_ok: "notifications_ok st \<Longrightarrow> notifications_ok (fst (profile e b u st))"
  by (simp add: profile_def split: sum.splits)

lemma profile_image_ok:
  "notifications_ok st \<Longrightarrow> notifications_ok (fst (profile_image e k file u st))"
  by (simp add: profile_image_def split: option.splits sum.splits)

lemma follow_ok: "notifications_ok st \<Longrightarrow> notifications_ok (fst (follow ident u st))"
  by (simp add: follow_def createNotification_ok split: option.splits sum.splits)

lemma unfollow_ok: "notifications_ok st \<Longrightarrow> notifications_ok (fst (unfollow ident u st))"
  by (simp add: unfollow_def split: option.splits sum.splits)

lemma create_post_ok:
  "notifications_ok st \<Longrightarrow> notifications_ok (fst (create_post e b file u st))"
  by (simp add: create_post_def Let_def split: option.splits)

lemma like_post_ok: "notifications_ok st \<Longrightarrow> notifications_ok (fst (like_post ident u st))"
  by (simp add: like_post_def createNotification_ok split: option.splits)

lemma add_comment_ok:
  "notifications_ok st \<Longrightarrow> notifications_ok (fst (add_comment ident b u st))"
  by (simp add: add_comment_def Let_def createNotification_ok split: option.splits)

lemma read_all_ok: "notifications_ok st \<Longrightarrow> notifications_ok (fst (read_all u st))"
  by (auto simp: read_all_def notifications_ok_def list_all_iff)

lemma ban_user_ok: "notifications_ok st \<Longrightarrow> notifications_ok (fst (ban_user e ident u st))"
  by (simp add: ban_user_def split: option.splits sum.splits)

lemma admin_delete_post_ok:
  "notifications_ok st \<Longrightarrow> notifications_ok (fst (admin_delete_post ident u st))"
  by (simp add: admin_delete_post_def split: option.splits)

lemma with_auth_ok:
  assumes "notifications_ok st" and "\<And>u. notifications_ok (fst (h u st))"
  shows "notifications_ok (fst (with_auth e hdr h st))"
  using assms by (simp add: with_auth_def split: sum.splits)

lemma with_admin_ok:
  assumes "notifications_ok st" and "notifications_ok (fst (h u st))"
  shows "notifications_ok (fst (with_admin h u st))"
  using assms by (simp add: with_admin_def)

lemma handle_ok:
  assumes "notifications_ok st"
  shows "notifications_ok (fst (handle e r st))"
proof (cases r)
  case (Register b)
  with assms show ?thesis by (simp add: register_ok)
next
  case (Login b)
  with assms show ?thesis by (simp add: login_ok)
next
  case (Me hdr)
  with assms show ?thesis by (simp add: with_auth_ok me_def)
next
  case (Profile hdr b)
  with assms show ?thesis by (simp add: with_auth_ok profile_ok)
next
  case (Avatar hdr upl)
  with assms show ?thesis by (simp add: with_auth_ok profile_image_ok)
next
  case (Cover hdr upl)
  with assms show ?thesis by (simp add: with_auth_ok profile_image_ok)
next
  case (Follow hdr ident)
  with assms show ?thesis by (simp add: with_auth_ok follow_ok)
next
  case (Unfollow hdr ident)
  with assms show ?thesis by (simp add: with_auth_ok unfollow_ok)
next
  case (CreatePost hdr b upl)
  with assms show ?thesis by (simp add: with_auth_ok create_post_ok)
next
  case GetPosts
  with assms show ?thesis by (simp add: get_posts_def)
next
  case (Like hdr ident)
  with assms show ?thesis by (simp add: with_auth_ok like_post_ok)
next
  case (AddComment hdr ident b)
  with assms show ?thesis by (simp add: with_auth_ok add_comment_ok)
next
  case (ListNotifications hdr)
  with assms show ?thesis by (simp add: with_auth_ok list_notifications_def)
next
  case (ReadAll hdr)
  with assms show ?thesis by (simp add: with_auth_ok read_all_ok)
next
  case (Ban hdr ident)
  with assms show ?thesis by (simp add: with_auth_ok with_admin_ok ban_user_ok)
next
  case (AdminDeletePost hdr ident)
  with assms show ?thesis by (simp add: with_auth_ok with_admin_ok admin_delete_post_ok)
qed

lemma run_ok: "notifications_ok st \<Longrightarrow> notifications_ok (run e rs st)"
  by (induction rs arbitrary: st) (simp_all add: handle_ok)

lemma init_ok: "notifications_ok init"
  by (simp add: notifications_ok_def init_def)

lemma own_like_no_notification:
  assumes "ObjectId ident = Some i"
    and "find (\<lambda>q. p_id q = i) (Posts st) = Some post"
    and "p_author post = fst u"
  shows "Notifications (fst (like_post ident u st)) = Notifications st"
  using assms by (simp add: like_post_def createNotification_def)

lemma own_comment_no_notification:
  assumes "ObjectId ident = Some i"
    and "find (\<lambda>q. p_id q = i) (Posts st) = Some post"
    and "p_author post = fst u"
  shows "Notifications (fst (add_comment ident b u st)) = Notifications st"
  using assms by (simp add: add_comment_def Let_def createNotification_def)

section \<open>The follow graph\<close>

lemma field_update: "field (AList.update k v d) k' = (if k' = k then Some v else field d k')"
  by (simp add: field_def update_conv')

lemma op_addToSet_result:
  assumes "op_addToSet k v u = Inr u'"
  shows "fst u' = fst u"
    and "array_elems (field (snd u') k) =
          (if v \<in> set (array_elems (field (snd u) k)) then array_elems (field (snd u) k)
           else array_elems (field (snd u) k) @ [v])"
    and "k' \<noteq> k \<Longrightarrow> field (snd u') k' = field (snd u) k'"
  using assms
  by (auto simp: op_addToSet_def array_elems_def field_update split: option.splits val.splits)


lemma split_dot_not_Nil [simp]: "split_dot k \<noteq> []"
  by (induction k) (auto split: list.splits)


lemma set_path_other:
  assumes "set_path s5 i cs v d = Inr d'" and "k \<noteq> hd cs"
  shows "field d' k = field d k"
  using assms
  by (auto simp: set_path_def field_update split: list.splits if_splits sum.splits)

lemma set_paths_other:
  assumes "set_paths s5 i pvs d = Inr d'" and "k \<notin> (\<lambda>pv. hd (fst pv)) ` set pvs"
  shows "field d' k = field d k"
  using assms
proof (induction pvs arbitrary: d)
  case Nil
  then show ?case by simp
next
  case (Cons pv pvs)
  from Cons.prems(1) obtain d1 where 1: "set_path s5 i (fst pv) (snd pv) d = Inr d1"
    and 2: "set_paths s5 i pvs d1 = Inr d'"
    by (auto split: sum.splits)
  from Cons.prems(2) have "k \<noteq> hd (fst pv)" and "k \<notin> (\<lambda>pv. hd (fst pv)) ` set pvs"
    by auto
  with Cons.IH [OF 2] set_path_other [OF 1] show ?case by simp
qed

lemma set_insert_path [simp]: "set (insert_path s5 pv xs) = insert pv (set xs)"
  by (induction xs) auto

lemma set_sort_paths [simp]: "set (sort_paths s5 xs) = set xs"
  by (induction xs) (simp_all add: sort_paths_def)

lemma op_set_result:
  assumes "op_set e F u = Inr u'"
  shows "fst u' = fst u"
    and "k \<notin> written_fields F \<Longrightarrow> field (snd u') k = field (snd u) k"
proof -
  from assms show "fst u' = fst u"
    by (auto simp: op_set_def split: if_splits sum.splits)
  assume k: "k \<notin> written_fields F"
  show "field (snd u') k = field (snd u) k"
  proof (cases "F = []")
    case True
    with assms show ?thesis by (auto simp: op_set_def split: if_splits)
  next
    case False
    with assms obtain d where
      d: "set_paths (server5 e) (fst u)
            (sort_paths (server5 e) (map (\<lambda>kv. (split_dot (fst kv), snd kv)) F)) (snd u) = Inr d"
      and u': "u' = (fst u, d)"
      by (auto simp: op_set_def split: if_splits sum.splits)
    from k have "k \<notin> (\<lambda>pv. hd (fst pv)) `
        set (sort_paths (server5 e) (map (\<lambda>kv. (split_dot (fst kv), snd kv)) F))"
      by (force simp: written_fields_def)
    from set_paths_other [OF d this] u' show ?thesis by simp
  qed
qed

lemma addToSet_following_free:
  assumes "op_addToSet ''following'' (VOid t) u = Inr u'" and "t \<noteq> fst u" and "self_free_user u"
  shows "self_free_user u'"
  using assms(2,3) op_addToSet_result [OF assms(1)]
  by (auto simp: self_free_user_def self_in_def refers_def list_ex_iff)

lemma addToSet_followers_free:
  assumes "op_addToSet ''followers'' (VOid a) u = Inr u'" and "a \<noteq> fst u" and "self_free_user u"
  shows "self_free_user u'"
  using assms(2,3) op_addToSet_result [OF assms(1)]
  by (auto simp: self_free_user_def self_in_def refers_def list_ex_iff)


lemma set_free:
  assumes "op_set e F u = Inr u'"
    and "''followers'' \<notin> written_fields F" and "''following'' \<notin> written_fields F"
    and "self_free_user u"
  shows "self_free_user u'"
  using assms(4) op_set_result(1) [OF assms(1)] op_set_result(2) [OF assms(1) assms(2)]
    op_set_result(2) [OF assms(1) assms(3)]
  by (simp add: self_free_user_def self_in_def)

lemma self_free_Users: "self_free (st\<lparr>Users := us\<rparr>) = list_all self_free_user us"
  by (simp add: self_free_def)

lemma self_free_other [simp]:
  "self_free (st\<lparr>Posts := ps\<rparr>) = self_free st"
  "self_free (st\<lparr>Comments := cs\<rparr>) = self_free st"
  "self_free (st\<lparr>Notifications := ns\<rparr>) = self_free st"
  "self_free (st\<lparr>next_id := n\<rparr>) = self_free st"
  "self_free (st\<lparr>clock := n\<rparr>) = self_free st"
  by (simp_all add: self_free_def)

lemma createNotification_free [simp]:
  "self_free (createNotification t s r p st) = self_free st"
  by (simp add: createNotification_def)



lemma update_set_free:
  assumes "update_user i (op_set e F) us = Inr us'"
    and "''followers'' \<notin> written_fields F" and "''following'' \<notin> written_fields F"
    and "list_all self_free_user us"
  shows "list_all self_free_user us'"
proof (rule update_user_all [OF assms(1) assms(4)])
  fix w w'
  assume "self_free_user w" and "op_set e F w = Inr w'"
  then show "self_free_user w'"
    using assms(2,3) set_free by blast
qed

lemma profile_free:
  assumes "self_free st"
    and "''followers'' \<notin> written_fields F" and "''following'' \<notin> written_fields F"
  shows "self_free (fst (profile e F u st))"
proof (cases "update_user (fst u) (op_set e F) (Users st)")
  case (Inl x)
  with assms(1) show ?thesis by (simp add: profile_def)
next
  case (Inr us)
  from update_set_free [OF Inr assms(2,3)] assms(1)
  have "list_all self_free_user us" by (simp add: self_free_def)
  with Inr show ?thesis by (simp add: profile_def self_free_Users)
qed


lemma update_following_free:
  assumes "update_user a (op_addToSet ''following'' (VOid t)) us = Inr us'"
    and "t \<noteq> a" and "list_all self_free_user us"
  shows "list_all self_free_user us'"
proof (rule update_user_all [OF assms(1) assms(3)])
  fix w w'
  assume "fst w = a" and "self_free_user w"
    and "op_addToSet ''following'' (VOid t) w = Inr w'"
  with assms(2) show "self_free_user w'"
    using addToSet_following_free by blast
qed

lemma update_followers_free:
  assumes "update_user t (op_addToSet ''followers'' (VOid a)) us = Inr us'"
    and "t \<noteq> a" and "list_all self_free_user us"
  shows "list_all self_free_user us'"
proof (rule update_user_all [OF assms(1) assms(3)])
  fix w w'
  assume "fst w = t" and "self_free_user w"
    and "op_addToSet ''followers'' (VOid a) w = Inr w'"
  with assms(2) show "self_free_user w'"
    using addToSet_followers_free by metis
qed

lemma profile_image_free:
  assumes "self_free st"
    and "hd (split_dot k) \<noteq> ''followers''" and "hd (split_dot k) \<noteq> ''following''"
  shows "self_free (fst (profile_image e k upl u st))"
proof (cases upl)
  case None
  with assms(1) show ?thesis by (simp add: profile_image_def)
next
  case (Some buffer)
  show ?thesis
  proof (cases "uploadToImgBB e buffer")
    case None
    with Some assms(1) show ?thesis by (simp add: profile_image_def)
  next
    case (Some img)
    show ?thesis
    proof (cases "update_user (fst u) (op_set e [(k, img)]) (Users st)")
      case (Inl x)
      with Some \<open>upl = Some buffer\<close> assms(1) show ?thesis by (simp add: profile_image_def)
    next
      case (Inr us)
      from update_set_free [OF Inr] assms
      have "list_all self_free_user us" by (simp add: self_free_def written_fields_def)
      with Inr Some \<open>upl = Some buffer\<close> show ?thesis
        by (simp add: profile_image_def self_free_Users)
    qed
  qed
qed

lemma ban_user_free:
  assumes "self_free st"
  shows "self_free (fst (ban_user e ident u st))"
proof (cases "ObjectId ident")
  case None
  with assms show ?thesis by (simp add: ban_user_def)
next
  case (Some i)
  show ?thesis
  proof (cases "update_user i (op_set e [(''banned'', VBool True)]) (Users st)")
    case (Inl x)
    with Some assms show ?thesis by (simp add: ban_user_def)
  next
    case (Inr us)
    from update_set_free [OF Inr] assms
    have "list_all self_free_user us" by (simp add: self_free_def written_fields_def)
    with Inr Some show ?thesis by (simp add: ban_user_def self_free_Users)
  qed
qed

lemma follow_free:
  assumes "self_free st"
  shows "self_free (fst (follow ident u st))"
proof (cases "ObjectId ident")
  case None
  with assms show ?thesis by (simp add: follow_def)
next
  case (Some t)
  show ?thesis
  proof (cases "t = fst u")
    case True
    with Some assms show ?thesis by (simp add: follow_def)
  next
    case False
    show ?thesis
    proof (cases "update_user (fst u) (op_addToSet ''following'' (VOid t)) (Users st)")
      case (Inl x)
      with Some False assms show ?thesis by (simp add: follow_def)
    next
      case (Inr us1)
      from update_following_free [OF Inr False] assms
      have us1: "list_all self_free_user us1" by (simp add: self_free_def)
      show ?thesis
      proof (cases "update_user t (op_addToSet ''followers'' (VOid (fst u))) us1")
        case (Inl x)
        with Some False Inr us1 show ?thesis by (simp add: follow_def self_free_Users)
      next
        case (Inr us2)
        from update_followers_free [OF Inr False us1]
        have "list_all self_free_user us2" .
        with Some False \<open>update_user (fst u) (op_addToSet ''following'' (VOid t)) (Users st) = Inr us1\<close>
          Inr show ?thesis
          by (simp add: follow_def self_free_Users)
      qed
    qed
  qed
qed


lemma unchanged_free:
  "self_free (fst (me u st)) = self_free st"
  "self_free (fst (get_posts st)) = self_free st"
  "self_free (fst (list_notifications u st)) = self_free st"
  "self_free (fst (read_all u st)) = self_free st"
  "self_free (fst (create_post e b upl u st)) = self_free st"
  "self_free (fst (like_post ident u st)) = self_free st"
  "self_free (fst (add_comment ident b u st)) = self_free st"
  "self_free (fst (admin_delete_post ident u st)) = self_free st"
  by (simp_all add: me_def get_posts_def list_notifications_def read_all_def create_post_def
      like_post_def add_comment_def admin_delete_post_def Let_def split: option.splits)


lemma with_admin_free:
  assumes "self_free st" and "self_free (fst (h u st))"
  shows "self_free (fst (with_admin h u st))"
  using assms by (simp add: with_admin_def)





section \<open>The same properties on the server of \<^verbatim>\<open>index.js\<close>\<close>

lemma auth3_cases:
  assumes "auth3 e hdr st = (st', r)"
  shows "st' = st \<or>
    (\<exists>d. st' = st\<lparr>Users := Users st @ [(next_id st, d)], next_id := Suc (next_id st),
                     clock := Suc (clock st)\<rparr>
         \<and> field d ''followers'' = Some (VArr []) \<and> field d ''following'' = Some (VArr []))"
  using assms
  by (auto simp: auth3_def Let_def field_def split: option.splits if_splits list.splits)

lemma auth3_ok:
  assumes "auth3 e hdr st = (st', r)" and "notifications_ok st"
  shows "notifications_ok st'"
  using auth3_cases [OF assms(1)] assms(2) by auto

lemma auth3_free:
  assumes "auth3 e hdr st = (st', r)" and "self_free st"
  shows "self_free st'"
  using auth3_cases [OF assms(1)] assms(2)
  by (auto simp: self_free_def self_free_user_def self_in_def array_elems_def)

lemma with_auth3_ok:
  assumes "notifications_ok st" and "\<And>u st'. notifications_ok st' \<Longrightarrow> notifications_ok (fst (h u st'))"
  shows "notifications_ok (fst (with_auth3 e hdr h st))"
proof (cases "auth3 e hdr st")
  case (Pair st' r)
  from auth3_ok [OF Pair assms(1)] assms(2) Pair show ?thesis
    by (cases r) (simp_all add: with_auth3_def)
qed

lemma with_auth3_free:
  assumes "self_free st" and "\<And>u st'. self_free st' \<Longrightarrow> self_free (fst (h u st'))"
  shows "self_free (fst (with_auth3 e hdr h st))"
proof (cases "auth3 e hdr st")
  case (Pair st' r)
  from auth3_free [OF Pair assms(1)] assms(2) Pair show ?thesis
    by (cases r) (simp_all add: with_auth3_def)
qed

lemma update_by_email_all:
  assumes "update_by_email e q f us = Some (Inr us')"
    and "list_all P us"
    and "\<And>u u'. P u \<Longrightarrow> f u = Inr u' \<Longrightarrow> P u'"
  shows "list_all P us'"
  using assms(1,2)
proof (induction us arbitrary: us')
  case Nil
  then show ?case by simp
next
  case (Cons u us)
  show ?case
  proof (cases "field_matches e q (field (snd u) ''email'')")
    case True
    with Cons.prems obtain u' where u': "f u = Inr u'" "us' = u' # us"
      by (auto split: sum.splits)
    from Cons.prems(2) have "P u" and rest: "list_all P us" by simp_all
    from assms(3) [OF \<open>P u\<close> u'(1)] rest u'(2) show ?thesis by simp
  next
    case False
    with Cons.prems obtain r where "update_by_email e q f us = Some (Inr r)" and "us' = u # r"
      by (auto split: option.splits sum.splits)
    with Cons.IH Cons.prems(2) show ?thesis by auto
  qed
qed

lemma register3_ok: "notifications_ok st \<Longrightarrow> notifications_ok (fst (register3 e b st))"
  by (simp add: register3_def Let_def split: option.splits sum.splits)

lemma register3_free:
  assumes "self_free st"
  shows "self_free (fst (register3 e b st))"
proof -
  define fs where "fs = [(''fullName'', stored (field b ''fullName'')), (''email'', stored (field b ''email''))]"
  have new: "self_free_user (i, fs)" for i
    by (simp add: fs_def self_free_user_def self_in_def array_elems_def field_def)
  have upd: "list_all self_free_user us"
    if "update_by_email e (field b ''email'') (op_set e fs) (Users st) = Some (Inr us)" for us
  proof (rule update_by_email_all [OF that])
    from assms show "list_all self_free_user (Users st)" by (simp add: self_free_def)
    fix w w'
    assume "self_free_user w" and "op_set e fs w = Inr w'"
    then show "self_free_user w'"
      by (rule_tac set_free [where F = fs]) (simp_all add: fs_def written_fields_def)
  qed
  show ?thesis
  proof (cases "update_by_email e (field b ''email'') (op_set e fs) (Users st)")
    case None
    with assms new show ?thesis
      by (simp add: register3_def fs_def [symmetric] self_free_def)
  next
    case (Some r)
    with assms upd show ?thesis
      by (cases r) (simp_all add: register3_def fs_def [symmetric] self_free_Users)
  qed
qed

lemma create_post3_ok:
  "notifications_ok st \<Longrightarrow> notifications_ok (fst (create_post3 e b upl u st))"
  by (simp add: create_post3_def Let_def split: option.splits)

lemma create_post3_free: "self_free (fst (create_post3 e b upl u st)) = self_free st"
  by (simp add: create_post3_def Let_def split: option.splits)

lemma handle3_ok:
  assumes "notifications_ok st"
  shows "notifications_ok (fst (handle3 e r st))"
proof (cases r)
  case (Register3 b)
  with assms show ?thesis by (simp add: register3_ok)
next
  case (Me3 hdr)
  with assms show ?thesis by (simp add: with_auth3_ok me_def)
next
  case (Profile3 hdr b)
  with assms show ?thesis by (simp add: with_auth3_ok profile_ok)
next
  case (Avatar3 hdr upl)
  with assms show ?thesis by (simp add: with_auth3_ok profile_image_ok)
next
  case (Cover3 hdr upl)
  with assms show ?thesis by (simp add: with_auth3_ok profile_image_ok)
next
  case (Follow3 hdr ident)
  with assms show ?thesis by (simp add: with_auth3_ok follow_ok)
next
  case (CreatePost3 hdr b upl)
  with assms show ?thesis by (simp add: with_auth3_ok create_post3_ok)
next
  case (AddComment3 hdr ident b)
  with assms show ?thesis by (simp add: with_auth3_ok add_comment_ok)
next
  case (ListNotifications3 hdr)
  with assms show ?thesis by (simp add: with_auth3_ok list_notifications_def)
next
  case (Ban3 hdr ident)
  with assms show ?thesis by (simp add: with_auth3_ok with_admin_ok ban_user_ok)
qed

lemma run3_ok: "notifications_ok st \<Longrightarrow> notifications_ok (run3 e rs st)"
  by (induction rs arbitrary: st) (simp_all add: handle3_ok)

lemma handle3_free:
  assumes "self_free st" and "\<not> writes_follow_fields3 r"
  shows "self_free (fst (handle3 e r st))"
proof (cases r)
  case (Register3 b)
  with assms show ?thesis by (simp add: register3_free)
next
  case (Me3 hdr)
  with assms show ?thesis by (simp add: with_auth3_free unchanged_free)
next
  case (Profile3 hdr b)
  with assms show ?thesis by (simp add: with_auth3_free profile_free)
next
  case (Avatar3 hdr upl)
  with assms show ?thesis by (simp add: with_auth3_free profile_image_free)
next
  case (Cover3 hdr upl)
  with assms show ?thesis by (simp add: with_auth3_free profile_image_free)
next
  case (Follow3 hdr ident)
  with assms show ?thesis by (simp add: with_auth3_free follow_free)
next
  case (CreatePost3 hdr b upl)
  with assms show ?thesis by (simp add: with_auth3_free create_post3_free)
next
  case (AddComment3 hdr ident b)
  with assms show ?thesis by (simp add: with_auth3_free unchanged_free)
next
  case (ListNotifications3 hdr)
  with assms show ?thesis by (simp add: with_auth3_free unchanged_free)
next
  case (Ban3 hdr ident)
  with assms show ?thesis by (simp add: with_auth3_free with_admin_free ban_user_free)
qed

lemma run3_free:
  "self_free st \<Longrightarrow> list_all (\<lambda>r. \<not> writes_follow_fields3 r) rs \<Longrightarrow> self_free (run3 e rs st)"
  by (induction rs arbitrary: st) (simp_all add: handle3_free)

lemma auth3_banned:
  assumes "split_sp header = x # token # rest" and "header \<noteq> []"
    and "verifyIdToken e token = Some decoded"
    and "find (\<lambda>u. field_matches e (field decoded ''email'') (field (snd u) ''email'')) (Users st) = Some u"
    and "truthy (field (snd u) ''banned'')"
  shows "auth3 e (Some header) st = (st, Inl (Reply 403 (Msg ''User banned'')))"
  using assms by (simp add: auth3_def)

text \<open>
  The gate of \<^verbatim>\<open>index.js\<close>: a verified token whose email is that of a user with a truthy
  \<^verbatim>\<open>banned\<close> field is answered 403 on every route behind \<^verbatim>\<open>auth\<close>, with the state
  unchanged.
\<close>

lemma provider_token_banned_rejected:
  assumes "auth_header3 req = Some (Some header)"
    and "split_sp header = x # token # rest" and "header \<noteq> []"
    and "verifyIdToken e token = Some decoded"
    and "find (\<lambda>u. field_matches e (field decoded ''email'') (field (snd u) ''email'')) (Users st) = Some u"
    and "truthy (field (snd u) ''banned'')"
  shows "handle3 e req st = (st, Reply 403 (Msg ''User banned''))"
  using assms(1) auth3_banned [OF assms(2-6)]
  by (cases req) (simp_all add: with_auth3_def)

section \<open>Notifications and the follow graph in reachable states\<close>

text \<open>
  C8. \<^verbatim>\<open>createNotification\<close> leaves the state as it is when sender and receiver are the
  same identity, and otherwise appends exactly one notification, unread. Hence in
  every state that either server (the one on the native driver, and \<^verbatim>\<open>index.js\<close>) reaches
  from the empty database no stored notification has its sender as receiver, and every
  request keeps it so; an author who likes or comments on their own post adds none.
\<close>

theorem notify_skips_self:
  "createNotification t s s p st = st
   \<and> (s \<noteq> r \<longrightarrow>
        Notifications (createNotification t s r p st) =
          Notifications st @ [\<lparr>n_id = next_id st, n_type = t, n_sender = s, n_receiver = r,
                                n_postId = p, n_read = False, n_createdAt = clock st\<rparr>])
   \<and> notifications_ok (run e rs init)
   \<and> notifications_ok (run3 e rs' init)
   \<and> (notifications_ok sa \<longrightarrow>
        notifications_ok (fst (handle e req sa)) \<and> notifications_ok (fst (handle3 e req' sa)))
   \<and> (ObjectId ident = Some i \<longrightarrow> find (\<lambda>q. p_id q = i) (Posts st') = Some post \<longrightarrow>
        p_author post = fst u \<longrightarrow>
          Notifications (fst (like_post ident u st')) = Notifications st'
          \<and> Notifications (fst (add_comment ident b u st')) = Notifications st')"
proof -
  have "createNotification t s s p st = st"
    by (simp add: createNotification_def)
  moreover have "s \<noteq> r \<longrightarrow>
        Notifications (createNotification t s r p st) =
          Notifications st @ [\<lparr>n_id = next_id st, n_type = t, n_sender = s, n_receiver = r,
                                n_postId = p, n_read = False, n_createdAt = clock st\<rparr>]"
    by (simp add: createNotification_def)
  moreover have "notifications_ok (run e rs init)"
    by (rule run_ok [OF init_ok])
  moreover have "notifications_ok (run3 e rs' init)"
    by (rule run3_ok [OF init_ok])
  moreover have "notifications_ok sa \<longrightarrow>
        notifications_ok (fst (handle e req sa)) \<and> notifications_ok (fst (handle3 e req' sa))"
    by (simp add: handle_ok handle3_ok)
  ultimately show ?thesis
    using own_like_no_notification own_comment_no_notification by blast
qed

theorem notify_skips_self_witness:
  "createNotification NFollow 0 0 None st2 = st2
   \<and> Notifications (createNotification NFollow 0 1 None st2) =
        [\<lparr>n_id = 2, n_type = NFollow, n_sender = 0, n_receiver = 1,
          n_postId = None, n_read = False, n_createdAt = 2\<rparr>]
   \<and> notifications_ok (run env0 [Register alice_form, Register bob_form, Follow hdr0 id1] init)
   \<and> notifications_ok (run3 env0 [Me3 (Some ''Bearer fb.a@x.com''), Me3 (Some ''Bearer fb.b@x.com''),
                                    Follow3 (Some ''Bearer fb.a@x.com'') id1] init)
   \<and> notifications_ok st4
   \<and> notifications_ok (fst (handle env0 (Like hdr1 id2) st4))
   \<and> notifications_ok (fst (handle3 env0 (Follow3 (Some ''Bearer fb.a@x.com'') id1) st4))
   \<and> ObjectId id2 = Some 2
   \<and> find (\<lambda>q. p_id q = 2) (Posts st3) = Some alice_post
   \<and> p_author alice_post = fst alice
   \<and> Notifications (fst (like_post id2 alice st3)) = []
   \<and> Notifications (fst (add_comment id2 [(''text'', VStr ''mine'')] alice st3)) = []"
proof -
  have 1: "(0::nat) \<noteq> 1" by simp
  have 2: "find (\<lambda>q. p_id q = 2) (Posts st3) = Some alice_post"
    by (simp add: st3_def alice_post_def)
  have 3: "p_author alice_post = fst alice"
    by (simp add: alice_post_def alice_def)
  have 4: "Notifications st2 = []" "next_id st2 = 2" "clock st2 = 2" "Notifications st3 = []"
    by (simp_all add: st2_def st3_def)
  have 5: "notifications_ok st4"
    by (simp add: notifications_ok_def st4_def)
  from notify_skips_self [where t = NFollow and s = 0 and r = 1 and p = None and st = st2
      and e = env0 and rs = "[Register alice_form, Register bob_form, Follow hdr0 id1]"
      and rs' = "[Me3 (Some ''Bearer fb.a@x.com''), Me3 (Some ''Bearer fb.b@x.com''),
                  Follow3 (Some ''Bearer fb.a@x.com'') id1]"
      and ident = id2 and i = 2 and st' = st3 and post = alice_post and u = alice
      and b = "[(''text'', VStr ''mine'')]" and req = "Like hdr1 id2"
      and req' = "Follow3 (Some ''Bearer fb.a@x.com'') id1" and sa = st4]
    1 2 3 4 5 ObjectId_id2
  show ?thesis by simp
qed




text \<open>
  So does a path into one of the two arrays, which is why such keys are set apart with
  the names themselves.
\<close>

lemma profile_update_path_self_edge:
  "\<not> writes_follow_fields (Profile hdr0 [(''bio'', VStr ''hi'')])
   \<and> writes_follow_fields (Profile hdr0 [(''following.0'', VStr id0)])
   \<and> \<not> self_free (run env0 [Register alice_form, Profile hdr0 [(''following.0'', VStr id0)]] init)"
  by (simp add: route_defs gate_defs db_defs sample_defs self_free_def self_free_user_def
      self_in_def array_elems_def refers_def written_fields_def)
section \<open>The profile update\<close>









text \<open>
  Keys that are no top-level field names: a dotted key writes into an embedded document,
  and a key that starts with \<^verbatim>\<open>$\<close>, an empty key, or a path through a string are refused
  by the database, and a key with a NUL character by the driver, so that the handler
  throws.
\<close>

lemma profile_update_paths:
  "map (\<lambda>w. field (snd w) ''stats'')
      (Users (fst (handle env0 (Profile hdr0 [(''stats.views'', VNum 1)]) st2)))
     = [Some (VObj [(''views'', VNum 1)]), None]
   \<and> handle env0 (Profile hdr0 [(''$x'', VNum 1)]) st2 = (st2, Threw DollarPrefixedFieldName)
   \<and> handle env0 (Profile hdr0 [([], VNum 1)]) st2 = (st2, Threw EmptyFieldName)
   \<and> handle env0 (Profile hdr0 [(''bio.x'', VNum 1)]) st2 = (st2, Threw PathNotViable)
   \<and> handle env0 (Profile hdr0 [([CHR 0x00], VNum 1)]) st2 = (st2, Threw BSONError)"
proof -
  have h: "handle env0 (Profile hdr0 b) st2 = profile env0 b alice st2" for b
    by (simp add: with_auth_def auth_hdr0_st2)
  show ?thesis
    unfolding h
    by (simp add: profile_def db_defs env0_def st2_def alice_def bob_def user_doc_def)
qed




section \<open>Login\<close>

text \<open>
  C10. A login answered 200 leaves the state as it is, and its body is the token signed
  for the user's id together with the whole stored document of the first user whose
  \<^verbatim>\<open>email\<close> matches the request's: the document holds the \<^verbatim>\<open>password\<close> field with the
  stored hash, the one the presented password was compared with.
\<close>

theorem login_returns_stored_record:
  assumes "login e b st = (st', Reply 200 bd)"
  shows "st' = st
    \<and> (\<exists>u pw h.
          find (\<lambda>u. field_matches e (field b ''email'') (field (snd u) ''email'')) (Users st) = Some u
          \<and> u \<in> set (Users st)
          \<and> bd = LoginBody (jwt_sign e (fst u)) u
          \<and> field (snd u) ''password'' = Some (VStr h)
          \<and> field b ''password'' = Some (VStr pw)
          \<and> bcrypt_compare e pw h)"
proof (cases "find (\<lambda>u. field_matches e (field b ''email'') (field (snd u) ''email'')) (Users st)")
  case None
  with assms show ?thesis by (simp add: login_def)
next
  case (Some u)
  then have mem: "u \<in> set (Users st)" by (auto simp: find_Some_iff)
  from assms Some obtain pw h where
    "field b ''password'' = Some (VStr pw)" "field (snd u) ''password'' = Some (VStr h)"
    by (auto simp: login_def split: option.splits val.splits)
  with assms Some mem show ?thesis
    by (auto simp: login_def split: if_splits)
qed

theorem login_returns_stored_record_witness:
  "login env0 [(''email'', VStr ''a@x.com''), (''password'', VStr ''pw1'')] st2
     = (st2, Reply 200 (LoginBody (jwt_sign env0 0) alice))
   \<and> find (\<lambda>u. field_matches env0 (field [(''email'', VStr ''a@x.com''), (''password'', VStr ''pw1'')] ''email'')
               (field (snd u) ''email'')) (Users st2) = Some alice
   \<and> field (snd alice) ''password'' = Some (VStr ''$2a$10$pw1'')
   \<and> bcrypt_compare env0 ''pw1'' ''$2a$10$pw1''"
proof -
  have 1: "login env0 [(''email'', VStr ''a@x.com''), (''password'', VStr ''pw1'')] st2
     = (st2, Reply 200 (LoginBody (jwt_sign env0 0) alice))"
    by (simp add: login_def field_matches_def field_def stored_def st2_def alice_def bob_def
        user_doc_def env0_def)
  have 2: "field (snd alice) ''password'' = Some (VStr ''$2a$10$pw1'')"
    by (simp add: field_def alice_def user_doc_def)
  have 3: "field [(''email'', VStr ''a@x.com''), (''password'', VStr ''pw1'')] ''password''
      = Some (VStr ''pw1'')"
    by (simp add: field_def)
  from login_returns_stored_record [OF 1] obtain u pw h where
    *: "find (\<lambda>u. field_matches env0 (field [(''email'', VStr ''a@x.com''), (''password'', VStr ''pw1'')] ''email'')
               (field (snd u) ''email'')) (Users st2) = Some u"
      "LoginBody (jwt_sign env0 0) alice = LoginBody (jwt_sign env0 (fst u)) u"
      "field (snd u) ''password'' = Some (VStr h)"
      "field [(''email'', VStr ''a@x.com''), (''password'', VStr ''pw1'')] ''password'' = Some (VStr pw)"
      "bcrypt_compare env0 pw h"
    by blast
  from *(2) have "u = alice" by simp
  with * 2 3 have "bcrypt_compare env0 ''pw1'' ''$2a$10$pw1''" by simp
  with 1 2 * \<open>u = alice\<close> show ?thesis by simp
qed

section \<open>Likes and comments\<close>

lemma auth_hdr0_st3: "auth env0 hdr0 st3 = Inr alice"
  by (simp add: gate_defs db_defs sample_defs)

lemma auth_hdr1_st3: "auth env0 hdr1 st3 = Inr bob"
  by (simp add: gate_defs db_defs sample_defs)


lemma Posts_createNotification [simp]: "Posts (createNotification t s r p st) = Posts st"
  by (simp add: createNotification_def)

text \<open>
  Neither route looks at what \<^verbatim>\<open>findOne\<close> returned before it reads the post. For a
  well-formed id of no stored post, the like handler throws on reading the null post
  and the state is unchanged; the comment handler has inserted the comment by the time
  it throws on reading the null post's author, and writes no notification. For an id
  that is no ObjectId both throw at once, with the state unchanged.
\<close>

lemma absent_post_throws:
  "(ObjectId ident = Some i \<longrightarrow> find (\<lambda>p. p_id p = i) (Posts st) = None \<longrightarrow>
       like_post ident u st = (st, Threw TypeError)
       \<and> add_comment ident b u st =
           (st\<lparr>Comments := Comments st @
                   [\<lparr>c_id = next_id st, c_text = stored (field b ''text''), c_postId = i,
                     c_author = fst u, c_createdAt = clock st\<rparr>],
                next_id := Suc (next_id st), clock := Suc (clock st)\<rparr>,
            Threw TypeError))
   \<and> (ObjectId ident = None \<longrightarrow>
       like_post ident u st = (st, Threw BSONError)
       \<and> add_comment ident b u st = (st, Threw BSONError))"
  by (simp add: like_post_def add_comment_def Let_def)

lemma absent_post_throws_sample:
  "ObjectId id9 = Some 9
   \<and> find (\<lambda>p. p_id p = 9) (Posts st3) = None
   \<and> like_post id9 bob st3 = (st3, Threw TypeError)
   \<and> add_comment id9 [(''text'', VStr ''hi'')] bob st3 =
       (st3\<lparr>Comments := [\<lparr>c_id = 3, c_text = VStr ''hi'', c_postId = 9, c_author = 1,
                            c_createdAt = 3\<rparr>],
            next_id := 4, clock := 4\<rparr>,
        Threw TypeError)
   \<and> ObjectId ''xyz'' = None
   \<and> like_post ''xyz'' bob st3 = (st3, Threw BSONError)
   \<and> add_comment ''xyz'' [(''text'', VStr ''hi'')] bob st3 = (st3, Threw BSONError)"
proof -
  have 1: "find (\<lambda>p. p_id p = 9) (Posts st3) = None"
    by (simp add: st3_def alice_post_def)
  have 2: "ObjectId ''xyz'' = None" by (simp add: ObjectId_def)
  have 3: "Comments st3 = []" "next_id st3 = 3" "clock st3 = 3" "fst bob = 1"
    by (simp_all add: st3_def bob_def)
  from absent_post_throws [where ident = id9 and i = 9 and st = st3 and u = bob
      and b = "[(''text'', VStr ''hi'')]"]
    absent_post_throws [where ident = "''xyz''" and st = st3 and u = bob
      and b = "[(''text'', VStr ''hi'')]"]
    ObjectId_id9 1 2 3
  show ?thesis by (simp add: field_def stored_def)
qed

text \<open>
  C4 does not hold of the code. Bob, authenticated, likes and comments on the id 9 while
  the only stored post has id 2. Neither request is answered with a 404: both handlers
  throw a \<^verbatim>\<open>TypeError\<close> on the null post, and by then the comment is stored, with a
  \<^verbatim>\<open>postId\<close> that refers to no post.
\<close>

theorem absent_post_not_found_fails:
  "find (\<lambda>p. p_id p = 9) (Posts st3) = None
   \<and> handle env0 (Like hdr1 id9) st3 = (st3, Threw TypeError)
   \<and> snd (handle env0 (AddComment hdr1 id9 [(''text'', VStr ''hi'')]) st3) = Threw TypeError
   \<and> Comments (fst (handle env0 (AddComment hdr1 id9 [(''text'', VStr ''hi'')]) st3)) =
        [\<lparr>c_id = 3, c_text = VStr ''hi'', c_postId = 9, c_author = 1, c_createdAt = 3\<rparr>]"
proof -
  have 1: "find (\<lambda>p. p_id p = 9) (Posts st3) = None"
    by (simp add: st3_def alice_post_def)
  have "handle env0 (Like hdr1 id9) st3 = like_post id9 bob st3"
    by (simp add: with_auth_def auth_hdr1_st3)
  moreover have "like_post id9 bob st3 = (st3, Threw TypeError)"
    using 1 by (simp add: like_post_def ObjectId_id9)
  moreover have "handle env0 (AddComment hdr1 id9 [(''text'', VStr ''hi'')]) st3
      = add_comment id9 [(''text'', VStr ''hi'')] bob st3"
    by (simp add: with_auth_def auth_hdr1_st3)
  moreover have "add_comment id9 [(''text'', VStr ''hi'')] bob st3 =
       (st3\<lparr>Comments := Comments st3 @
               [\<lparr>c_id = 3, c_text = VStr ''hi'', c_postId = 9, c_author = 1, c_createdAt = 3\<rparr>],
            next_id := 4, clock := 4\<rparr>,
        Threw TypeError)"
    using 1 by (simp add: add_comment_def ObjectId_id9 Let_def field_def stored_def st3_def bob_def)
  moreover have "Comments st3 = []" by (simp add: st3_def)
  ultimately show ?thesis using 1 by simp
qed


subsection \<open>No user is twice in the likes of a post\<close>


























section \<open>Following twice, registering twice\<close>

lemma op_addToSet_idem:
  assumes "op_addToSet k v u = Inr u'"
  shows "op_addToSet k v u' = Inr u'" and "fst u' = fst u"
proof -
  from assms obtain xs where u': "u' = (fst u, AList.update k (VArr xs) (snd u))" and "v \<in> set xs"
    by (auto simp: op_addToSet_def split: option.splits val.splits if_splits)
  then show "op_addToSet k v u' = Inr u'"
    by (simp add: op_addToSet_def field_update)
  from u' show "fst u' = fst u" by simp
qed

lemma update_user_idem:
  assumes "update_user i f us = Inr us'"
    and "\<And>u u'. f u = Inr u' \<Longrightarrow> f u' = Inr u' \<and> fst u' = fst u"
  shows "update_user i f us' = Inr us'"
  using assms(1)
proof (induction us arbitrary: us')
  case Nil
  then show ?case by simp
next
  case (Cons u us)
  show ?case
  proof (cases "fst u = i")
    case True
    with Cons.prems obtain u' where u': "f u = Inr u'" "us' = u' # us"
      by (auto split: sum.splits)
    with assms(2) [OF u'(1)] True show ?thesis by simp
  next
    case False
    with Cons.prems obtain r where r: "update_user i f us = Inr r" "us' = u # r"
      by (auto split: sum.splits)
    with Cons.IH [OF r(1)] False show ?thesis by simp
  qed
qed

lemma update_user_other:
  assumes "update_user j g us = Inr us'"
    and "update_user i f us = Inr us"
    and "i \<noteq> j"
    and "\<And>u u'. g u = Inr u' \<Longrightarrow> fst u' = fst u"
  shows "update_user i f us' = Inr us'"
  using assms(1,2)
proof (induction us arbitrary: us')
  case Nil
  then show ?case by simp
next
  case (Cons u us)
  show ?case
  proof (cases "fst u = j")
    case True
    with Cons.prems(1) obtain u' where u': "g u = Inr u'" "us' = u' # us"
      by (auto split: sum.splits)
    from True assms(3) have "fst u \<noteq> i" by simp
    with Cons.prems(2) have "update_user i f us = Inr us"
      by (auto split: sum.splits)
    with u' assms(4) [OF u'(1)] True assms(3) show ?thesis by simp
  next
    case False
    with Cons.prems(1) obtain r where r: "update_user j g us = Inr r" "us' = u # r"
      by (auto split: sum.splits)
    show ?thesis
    proof (cases "fst u = i")
      case True
      with Cons.prems(2) have "f u = Inr u" by (auto split: sum.splits)
      with True r show ?thesis by simp
    next
      case False
      with Cons.prems(2) have "update_user i f us = Inr us" by (auto split: sum.splits)
      with Cons.IH [OF r(1)] False r show ?thesis by simp
    qed
  qed
qed

text \<open>
  After a follow that was answered 200, the same follow again leaves every user
  document as it is, is answered 200 again and writes one more notification.
\<close>

lemma follow_again:
  assumes "follow ident u st = (st1, Reply 200 (Msg ''Followed''))"
  shows "\<exists>t. ObjectId ident = Some t \<and> t \<noteq> fst u
      \<and> follow ident u st1 =
          (createNotification NFollow (fst u) t None st1, Reply 200 (Msg ''Followed''))
      \<and> Users (fst (follow ident u st1)) = Users st1
      \<and> Notifications (fst (follow ident u st1)) =
          Notifications st1 @ [\<lparr>n_id = next_id st1, n_type = NFollow, n_sender = fst u,
                                n_receiver = t, n_postId = None, n_read = False,
                                n_createdAt = clock st1\<rparr>]"
proof -
  from assms obtain t where t: "ObjectId ident = Some t" "t \<noteq> fst u"
    by (auto simp: follow_def split: option.splits if_splits)
  with assms obtain us1 where
    us1: "update_user (fst u) (op_addToSet ''following'' (VOid t)) (Users st) = Inr us1"
    by (auto simp: follow_def split: sum.splits)
  with assms t obtain us2 where
    us2: "update_user t (op_addToSet ''followers'' (VOid (fst u))) us1 = Inr us2"
    by (auto simp: follow_def split: sum.splits)
  from assms t us1 us2
  have st1: "st1 = createNotification NFollow (fst u) t None (st\<lparr>Users := us2\<rparr>)"
    by (simp add: follow_def)
  with t have users: "Users st1 = us2" by (simp add: createNotification_def)
  have a: "update_user (fst u) (op_addToSet ''following'' (VOid t)) us1 = Inr us1"
    by (rule update_user_idem [OF us1]) (simp add: op_addToSet_idem)
  have b: "update_user (fst u) (op_addToSet ''following'' (VOid t)) us2 = Inr us2"
    using us2 a t(2) [symmetric]
    by (rule update_user_other [where j = t]) (simp add: op_addToSet_idem)
  have c: "update_user t (op_addToSet ''followers'' (VOid (fst u))) us2 = Inr us2"
    by (rule update_user_idem [OF us2]) (simp add: op_addToSet_idem)
  have again: "follow ident u st1 =
      (createNotification NFollow (fst u) t None (st1\<lparr>Users := us2\<rparr>), Reply 200 (Msg ''Followed''))"
    using t users b c by (simp add: follow_def)
  moreover from users have "st1\<lparr>Users := us2\<rparr> = st1" by simp
  ultimately have "follow ident u st1 =
      (createNotification NFollow (fst u) t None st1, Reply 200 (Msg ''Followed''))"
    by simp
  with t show ?thesis by (simp add: createNotification_def)
qed

text \<open>
  C5 on the code: Alice follows Bob twice. Bob is in her \<^verbatim>\<open>following\<close> once and she is
  in his \<^verbatim>\<open>followers\<close> once, and the second call has written a second \<^verbatim>\<open>follow\<close>
  notification (as \<open>follow_again\<close> shows for every repeated follow).
\<close>

theorem follow_twice_notifies_twice:
  "map (occurrences 1 ''following'') (Users (run env0 [Follow hdr0 id1, Follow hdr0 id1] st2)) = [1, 0]
   \<and> map (occurrences 0 ''followers'') (Users (run env0 [Follow hdr0 id1, Follow hdr0 id1] st2)) = [0, 1]
   \<and> Notifications (run env0 [Follow hdr0 id1] st2) =
        [\<lparr>n_id = 2, n_type = NFollow, n_sender = 0, n_receiver = 1, n_postId = None,
          n_read = False, n_createdAt = 2\<rparr>]
   \<and> Notifications (run env0 [Follow hdr0 id1, Follow hdr0 id1] st2) =
        [\<lparr>n_id = 2, n_type = NFollow, n_sender = 0, n_receiver = 1, n_postId = None,
          n_read = False, n_createdAt = 2\<rparr>,
         \<lparr>n_id = 3, n_type = NFollow, n_sender = 0, n_receiver = 1, n_postId = None,
          n_read = False, n_createdAt = 3\<rparr>]"
  by (simp add: route_defs gate_defs db_defs sample_defs occurrences_def array_elems_def)

text \<open>
  C3 on the code: with Alice and Bob registered, a second registration with Alice's
  handle and email is answered 200 and stores a third document with the same handle
  and email.
\<close>

theorem register_duplicate_accepted:
  "snd (handle env0 (Register alice_form) st2) = Reply 200 (Msg ''User registered'')
   \<and> map (\<lambda>w. (field (snd w) ''username'', field (snd w) ''email''))
        (Users (fst (handle env0 (Register alice_form) st2))) =
       [(Some (VStr ''alice''), Some (VStr ''a@x.com'')),
        (Some (VStr ''bob''), Some (VStr ''b@x.com'')),
        (Some (VStr ''alice''), Some (VStr ''a@x.com''))]"
  by (simp add: route_defs db_defs sample_defs)

section \<open>Deleting a post\<close>

lemma posts_ok_ids:
  assumes "posts_ok st"
    and "map p_id (Posts st') = map p_id (Posts st) \<and> next_id st \<le> next_id st'"
  shows "posts_ok st'"
  using assms by (auto simp: posts_ok_def list_all_iff)

lemma posts_ok_same:
  assumes "posts_ok st" and "Posts st' = Posts st \<and> next_id st \<le> next_id st'"
  shows "posts_ok st'"
  using assms by (auto intro: posts_ok_ids)

lemma createNotification_posts:
  "Posts (createNotification t s r p st) = Posts st"
  "next_id st \<le> next_id (createNotification t s r p st)"
  by (simp_all add: createNotification_def)

lemma map_p_id_add_like: "map p_id (add_like i a ps) = map p_id ps"
  by (induction ps) simp_all

lemma delete_one_ids:
  "distinct (map p_id ps) \<Longrightarrow> distinct (map p_id (delete_one P ps))"
  "set (delete_one P ps) \<subseteq> set ps"
  by (induction ps) auto

lemma register_posts: "posts_ok st \<Longrightarrow> posts_ok (fst (register e b st))"
  by (erule posts_ok_same) (simp add: register_def split: option.splits val.splits)

lemma login_posts: "posts_ok st \<Longrightarrow> posts_ok (fst (login e b st))"
  by (erule posts_ok_same) (simp add: login_def split: option.splits val.splits prod.splits)

lemma profile_posts: "posts_ok st \<Longrightarrow> posts_ok (fst (profile e b u st))"
  by (erule posts_ok_same) (simp add: profile_def split: sum.splits)

lemma profile_image_posts: "posts_ok st \<Longrightarrow> posts_ok (fst (profile_image e k upl u st))"
  by (erule posts_ok_same) (simp add: profile_image_def split: option.splits sum.splits)

lemma follow_posts: "posts_ok st \<Longrightarrow> posts_ok (fst (follow ident u st))"
  by (erule posts_ok_same)
    (simp add: follow_def createNotification_def split: option.splits sum.splits)

lemma unfollow_posts: "posts_ok st \<Longrightarrow> posts_ok (fst (unfollow ident u st))"
  by (erule posts_ok_same) (simp add: unfollow_def split: option.splits sum.splits)

lemma add_comment_posts: "posts_ok st \<Longrightarrow> posts_ok (fst (add_comment ident b u st))"
  by (erule posts_ok_same)
    (simp add: add_comment_def Let_def createNotification_def split: option.splits)

lemma read_all_posts: "posts_ok st \<Longrightarrow> posts_ok (fst (read_all u st))"
  by (erule posts_ok_same) (simp add: read_all_def)

lemma ban_user_posts: "posts_ok st \<Longrightarrow> posts_ok (fst (ban_user e ident u st))"
  by (erule posts_ok_same) (simp add: ban_user_def split: option.splits sum.splits)

lemma create_post_posts: "posts_ok st \<Longrightarrow> posts_ok (fst (create_post e b upl u st))"
  by (auto simp: create_post_def Let_def posts_ok_def list_all_iff split: option.splits)

lemma like_post_posts: "posts_ok st \<Longrightarrow> posts_ok (fst (like_post ident u st))"
  by (erule posts_ok_ids)
    (simp add: like_post_def createNotification_def map_p_id_add_like split: option.splits)

lemma admin_delete_post_posts:
  "posts_ok st \<Longrightarrow> posts_ok (fst (admin_delete_post ident u st))"
  using delete_one_ids [where ps = "Posts st" and P = "\<lambda>p. p_id p = i" for i]
  by (auto simp: admin_delete_post_def posts_ok_def list_all_iff split: option.splits)

lemma with_auth_posts:
  assumes "posts_ok st" and "\<And>u. posts_ok (fst (h u st))"
  shows "posts_ok (fst (with_auth e hdr h st))"
  using assms by (simp add: with_auth_def split: sum.splits)

lemma with_admin_posts:
  assumes "posts_ok st" and "posts_ok (fst (h u st))"
  shows "posts_ok (fst (with_admin h u st))"
  using assms by (simp add: with_admin_def)

lemma handle_posts:
  assumes "posts_ok st"
  shows "posts_ok (fst (handle e r st))"
proof (cases r)
  case (Register b)
  with assms show ?thesis by (simp add: register_posts)
next
  case (Login b)
  with assms show ?thesis by (simp add: login_posts)
next
  case (Me hdr)
  with assms show ?thesis by (simp add: with_auth_posts me_def)
next
  case (Profile hdr b)
  with assms show ?thesis by (simp add: with_auth_posts profile_posts)
next
  case (Avatar hdr upl)
  with assms show ?thesis by (simp add: with_auth_posts profile_image_posts)
next
  case (Cover hdr upl)
  with assms show ?thesis by (simp add: with_auth_posts profile_image_posts)
next
  case (Follow hdr ident)
  with assms show ?thesis by (simp add: with_auth_posts follow_posts)
next
  case (Unfollow hdr ident)
  with assms show ?thesis by (simp add: with_auth_posts unfollow_posts)
next
  case (CreatePost hdr b upl)
  with assms show ?thesis by (simp add: with_auth_posts create_post_posts)
next
  case GetPosts
  with assms show ?thesis by (simp add: get_posts_def)
next
  case (Like hdr ident)
  with assms show ?thesis by (simp add: with_auth_posts like_post_posts)
next
  case (AddComment hdr ident b)
  with assms show ?thesis by (simp add: with_auth_posts add_comment_posts)
next
  case (ListNotifications hdr)
  with assms show ?thesis by (simp add: with_auth_posts list_notifications_def)
next
  case (ReadAll hdr)
  with assms show ?thesis by (simp add: with_auth_posts read_all_posts)
next
  case (Ban hdr ident)
  with assms show ?thesis by (simp add: with_auth_posts with_admin_posts ban_user_posts)
next
  case (AdminDeletePost hdr ident)
  with assms show ?thesis by (simp add: with_auth_posts with_admin_posts admin_delete_post_posts)
qed

lemma run_posts: "posts_ok st \<Longrightarrow> posts_ok (run e rs st)"
  by (induction rs arbitrary: st) (simp_all add: handle_posts)

lemma reachable_post_ids_distinct: "distinct (map p_id (Posts (run e rs init)))"
proof -
  have "posts_ok init" by (simp add: posts_ok_def init_def)
  from run_posts [OF this] show ?thesis by (simp add: posts_ok_def)
qed

lemma delete_one_distinct:
  "distinct (map p_id ps) \<Longrightarrow> delete_one (\<lambda>p. p_id p = i) ps = filter (\<lambda>p. p_id p \<noteq> i) ps"
proof (induction ps)
  case Nil
  then show ?case by simp
next
  case (Cons p ps)
  show ?case
  proof (cases "p_id p = i")
    case True
    with Cons.prems have "i \<notin> p_id ` set ps" by simp
    then have "\<forall>q \<in> set ps. p_id q \<noteq> i" by blast
    then have "filter (\<lambda>p. p_id p \<noteq> i) ps = ps" by (simp add: filter_id_conv)
    with True show ?thesis by simp
  next
    case False
    with Cons show ?thesis by simp
  qed
qed

lemma find_post_id: "find (\<lambda>p. p_id p = i) ps = Some post \<Longrightarrow> p_id post = i"
  by (auto simp: find_Some_iff)

text \<open>
  C7, as the code has it. No route has the gate ``author or administrator''. The server
  on mongoose has the author's route: a caller who is not the author of the existing
  post is answered 403, with the state unchanged. The server on the native driver has
  the administrators' route only: a caller whose role is not \<^verbatim>\<open>admin\<close> is answered 403,
  with the state unchanged, the author of the post included. When the author deletes on
  the first route, or an administrator on the second, the answer is 200, the post is
  gone and so is every comment that refers to it, while all other posts and comments
  stay. (Post ids are pairwise different, as the database keeps them;
  \<open>reachable_post_ids_distinct\<close> shows it for the states the model reaches.)
\<close>

theorem delete_post_gate_and_cascade:
  "(auth_v1 e hdr = Inr userId \<longrightarrow> ObjectId ident = Some i \<longrightarrow>
      find (\<lambda>p. p_id p = i) (Posts st) = Some post \<longrightarrow>
        (toString (p_author post) \<noteq> userId \<longrightarrow>
           delete_post_route_v1 e hdr ident st = (st, Reply 403 (Msg ''Not allowed'')))
        \<and> (toString (p_author post) = userId \<longrightarrow> distinct (map p_id (Posts st)) \<longrightarrow>
           delete_post_route_v1 e hdr ident st =
             (st\<lparr>Posts := filter (\<lambda>p. p_id p \<noteq> i) (Posts st),
                 Comments := filter (\<lambda>c. c_postId c \<noteq> i) (Comments st)\<rparr>,
              Reply 200 (Msg ''Post deleted''))))
   \<and> (auth e hdr st = Inr u \<longrightarrow>
        (\<not> adminOnly u \<longrightarrow>
           handle e (AdminDeletePost hdr ident) st = (st, Reply 403 (Msg ''Admin only'')))
        \<and> (adminOnly u \<longrightarrow> ObjectId ident = Some i \<longrightarrow> distinct (map p_id (Posts st)) \<longrightarrow>
           handle e (AdminDeletePost hdr ident) st =
             (st\<lparr>Posts := filter (\<lambda>p. p_id p \<noteq> i) (Posts st),
                 Comments := filter (\<lambda>c. c_postId c \<noteq> i) (Comments st)\<rparr>,
              Reply 200 (Msg ''Post removed''))))"
proof -
  have "delete_post_route_v1 e hdr ident st = (st, Reply 403 (Msg ''Not allowed''))"
    if "auth_v1 e hdr = Inr userId" "ObjectId ident = Some i"
      "find (\<lambda>p. p_id p = i) (Posts st) = Some post" "toString (p_author post) \<noteq> userId"
    using that by (simp add: delete_post_route_v1_def delete_post_v1_def)
  moreover have "delete_post_route_v1 e hdr ident st =
             (st\<lparr>Posts := filter (\<lambda>p. p_id p \<noteq> i) (Posts st),
                 Comments := filter (\<lambda>c. c_postId c \<noteq> i) (Comments st)\<rparr>,
              Reply 200 (Msg ''Post deleted''))"
    if "auth_v1 e hdr = Inr userId" "ObjectId ident = Some i"
      "find (\<lambda>p. p_id p = i) (Posts st) = Some post" "toString (p_author post) = userId"
      "distinct (map p_id (Posts st))"
    using that find_post_id [OF that(3)]
    by (simp add: delete_post_route_v1_def delete_post_v1_def delete_one_distinct)
  moreover have "handle e (AdminDeletePost hdr ident) st = (st, Reply 403 (Msg ''Admin only''))"
    if "auth e hdr st = Inr u" "\<not> adminOnly u"
    using that by (simp add: with_auth_def with_admin_def)
  moreover have "handle e (AdminDeletePost hdr ident) st =
             (st\<lparr>Posts := filter (\<lambda>p. p_id p \<noteq> i) (Posts st),
                 Comments := filter (\<lambda>c. c_postId c \<noteq> i) (Comments st)\<rparr>,
              Reply 200 (Msg ''Post removed''))"
    if "auth e hdr st = Inr u" "adminOnly u" "ObjectId ident = Some i"
      "distinct (map p_id (Posts st))"
    using that
    by (simp add: with_auth_def with_admin_def admin_delete_post_def delete_one_distinct)
  ultimately show ?thesis by blast
qed

lemma auth_v1_hdr0: "auth_v1 env0 hdr0 = Inr id0"
  by (simp add: auth_v1_def bearer_def hdr0_def env0_def id0_def)

lemma auth_v1_hdr1: "auth_v1 env0 hdr1 = Inr id1"
  by (simp add: auth_v1_def bearer_def hdr1_def env0_def id1_def)

lemma auth_hdr1_st4: "auth env0 hdr1 st4 = Inr bob"
  by (simp add: gate_defs db_defs sample_defs)

lemma auth_hdr1_st4_admin: "auth env0 hdr1 st4_admin = Inr bob_admin"
  by (simp add: gate_defs db_defs sample_defs)

theorem delete_post_gate_and_cascade_witness:
  "auth_v1 env0 hdr1 = Inr id1 \<and> auth_v1 env0 hdr0 = Inr id0
   \<and> ObjectId id2 = Some 2
   \<and> find (\<lambda>p. p_id p = 2) (Posts st4) = Some alice_post
   \<and> toString (p_author alice_post) \<noteq> id1
   \<and> toString (p_author alice_post) = id0
   \<and> distinct (map p_id (Posts st4))
   \<and> delete_post_route_v1 env0 hdr1 id2 st4 = (st4, Reply 403 (Msg ''Not allowed''))
   \<and> delete_post_route_v1 env0 hdr0 id2 st4 =
       (st4\<lparr>Posts := [], Comments := []\<rparr>, Reply 200 (Msg ''Post deleted''))
   \<and> auth env0 hdr1 st4 = Inr bob \<and> \<not> adminOnly bob
   \<and> handle env0 (AdminDeletePost hdr1 id2) st4 = (st4, Reply 403 (Msg ''Admin only''))
   \<and> auth env0 hdr1 st4_admin = Inr bob_admin \<and> adminOnly bob_admin
   \<and> distinct (map p_id (Posts st4_admin))
   \<and> handle env0 (AdminDeletePost hdr1 id2) st4_admin =
       (st4_admin\<lparr>Posts := [], Comments := []\<rparr>, Reply 200 (Msg ''Post removed''))"
proof -
  have 1: "find (\<lambda>p. p_id p = 2) (Posts st4) = Some alice_post"
    by (simp add: st4_def alice_post_def)
  have 2: "toString (p_author alice_post) = id0"
    by (simp add: alice_post_def toString_0)
  have 3: "toString (p_author alice_post) \<noteq> id1"
    unfolding 2 by (simp add: id0_def id1_def)
  have 4: "distinct (map p_id (Posts st4))" "distinct (map p_id (Posts st4_admin))"
    by (simp_all add: st4_def st4_admin_def)
  have 5: "\<not> adminOnly bob" "adminOnly bob_admin"
    by (simp_all add: adminOnly_def field_def bob_def bob_admin_def user_doc_def)
  have 6: "filter (\<lambda>p. p_id p \<noteq> 2) (Posts st4) = []"
    "filter (\<lambda>c. c_postId c \<noteq> 2) (Comments st4) = []"
    "filter (\<lambda>p. p_id p \<noteq> 2) (Posts st4_admin) = []"
    "filter (\<lambda>c. c_postId c \<noteq> 2) (Comments st4_admin) = []"
    by (simp_all add: st4_def st4_admin_def alice_post_def bob_comment_def)
  note t = delete_post_gate_and_cascade [where ident = id2 and i = 2]
  from t [where e = env0 and hdr = hdr1 and userId = id1 and st = st4 and post = alice_post,
      THEN conjunct1] auth_v1_hdr1 ObjectId_id2 1 3
  have a: "delete_post_route_v1 env0 hdr1 id2 st4 = (st4, Reply 403 (Msg ''Not allowed''))"
    by blast
  from t [where e = env0 and hdr = hdr0 and userId = id0 and st = st4 and post = alice_post,
      THEN conjunct1] auth_v1_hdr0 ObjectId_id2 1 2 4(1)
  have b: "delete_post_route_v1 env0 hdr0 id2 st4 =
       (st4\<lparr>Posts := [], Comments := []\<rparr>, Reply 200 (Msg ''Post deleted''))"
    unfolding 6 by blast
  from t [where e = env0 and hdr = hdr1 and st = st4 and u = bob, THEN conjunct2]
    auth_hdr1_st4 5(1)
  have c: "handle env0 (AdminDeletePost hdr1 id2) st4 = (st4, Reply 403 (Msg ''Admin only''))"
    by blast
  from t [where e = env0 and hdr = hdr1 and st = st4_admin and u = bob_admin, THEN conjunct2]
    auth_hdr1_st4_admin 5(2) ObjectId_id2 4(2)
  have d: "handle env0 (AdminDeletePost hdr1 id2) st4_admin =
       (st4_admin\<lparr>Posts := [], Comments := []\<rparr>, Reply 200 (Msg ''Post removed''))"
    unfolding 6 by blast
  from a b c d auth_v1_hdr1 auth_v1_hdr0 ObjectId_id2 1 2 3 4 5 auth_hdr1_st4 auth_hdr1_st4_admin
  show ?thesis by simp
qed


lemma auth_hdr0_st4: "auth env0 hdr0 st4 = Inr alice"
  by (simp add: gate_defs db_defs sample_defs)

text \<open>
  C7 as stated fails on the server on the native driver: Alice, who is no administrator,
  asks to delete her own post and is answered 403; post and comment stay.
\<close>

theorem author_delete_refused:
  "find (\<lambda>p. p_id p = 2) (Posts st4) = Some alice_post
   \<and> p_author alice_post = fst alice
   \<and> auth env0 hdr0 st4 = Inr alice
   \<and> handle env0 (AdminDeletePost hdr0 id2) st4 = (st4, Reply 403 (Msg ''Admin only''))
   \<and> Posts st4 = [alice_post] \<and> Comments st4 = [bob_comment]"
proof -
  have "\<not> adminOnly alice"
    by (simp add: adminOnly_def field_def alice_def user_doc_def)
  then have "handle env0 (AdminDeletePost hdr0 id2) st4 = (st4, Reply 403 (Msg ''Admin only''))"
    by (simp add: with_auth_def with_admin_def auth_hdr0_st4)
  moreover have "find (\<lambda>p. p_id p = 2) (Posts st4) = Some alice_post"
    "p_author alice_post = fst alice" "Posts st4 = [alice_post]" "Comments st4 = [bob_comment]"
    by (simp_all add: st4_def alice_post_def alice_def)
  ultimately show ?thesis using auth_hdr0_st4 by simp
qed
end
